theory Spec2Isabelle
  imports Main "HOL-Library.Finite_Map" "HOL-Library.Word"
begin

section \<open>The bounded key-value store (main.go, KeyValueStore)\<close>

text \<open>
  Go strings are byte sequences and \<open>len([]byte(s))\<close> counts bytes, so a Go string is a
  \<open>string\<close> (a list of 8-bit characters) and its size is \<open>length\<close>.  The field
  \<open>store map[string]string\<close> is a finite map; \<open>len(kvs.store)\<close> is the number of its keys.
  The mutex \<open>mu\<close> serialises the operations; the model is the sequential behaviour of one
  operation running under its lock.
\<close>

definition MaxKeySize :: nat where
  "MaxKeySize = 255"

definition MaxValueSize :: nat where
  "MaxValueSize = 1048576"

definition MaxKeyCount :: nat where
  "MaxKeyCount = 100"

record KeyValueStore =
  store :: "(string, string) fmap"

text \<open>The three errors \<open>Set\<close> builds with \<open>fmt.Errorf\<close>, and their texts (\<open>err.Error()\<close>).\<close>

datatype store_error = KeyTooLarge | ValueTooLarge | CapacityExceeded

fun Error :: "store_error \<Rightarrow> string" where
  "Error KeyTooLarge = ''key exceeds maximum size of 255 bytes''"
| "Error ValueTooLarge = ''value exceeds maximum size of 1048576 bytes''"
| "Error CapacityExceeded = ''maximum number of keys (100) reached''"

definition NewKeyValueStore :: KeyValueStore where
  "NewKeyValueStore = \<lparr>store = fmempty\<rparr>"

text \<open>\<open>value, exists := kvs.store[key]\<close>: a missing key yields the zero value \<open>""\<close> and false.\<close>

definition Get :: "KeyValueStore \<Rightarrow> string \<Rightarrow> string \<times> bool" where
  "Get kvs key = (case fmlookup (store kvs) key of None \<Rightarrow> ('''', False) | Some v \<Rightarrow> (v, True))"

text \<open>\<open>Set\<close> returns the error (\<open>None\<close> for \<open>nil\<close>) and the store it leaves behind.\<close>

definition Set :: "KeyValueStore \<Rightarrow> string \<Rightarrow> string \<Rightarrow> store_error option \<times> KeyValueStore" where
  "Set kvs key val =
     (if length key > MaxKeySize then (Some KeyTooLarge, kvs)
      else if length val > MaxValueSize then (Some ValueTooLarge, kvs)
      else if fmlookup (store kvs) key = None \<and> fcard (fmdom (store kvs)) \<ge> MaxKeyCount
        then (Some CapacityExceeded, kvs)
      else (None, kvs\<lparr>store := fmupd key val (store kvs)\<rparr>))"

text \<open>
  \<open>GetStatus\<close> adds \<open>int64(len(k) + len(v))\<close> over the entries into an \<open>int64\<close>
  accumulator (addition wraps modulo \<open>2^64\<close>; the order of a Go map iteration does not matter
  to a sum) and reads \<open>len(kvs.store)\<close>.
\<close>

record StatusInfo =
  KeyCount :: int
  MemoryUsage :: "64 word"

definition GetStatus :: "KeyValueStore \<Rightarrow> StatusInfo" where
  "GetStatus kvs =
     \<lparr>KeyCount = int (fcard (fmdom (store kvs))),
      MemoryUsage = (\<Sum>k \<in> fset (fmdom (store kvs)).
                       of_nat (length k + length (the (fmlookup (store kvs) k))))\<rparr>"

text \<open>The total the specification asks for: the exact sum of \<open>len(key) + len(value)\<close>.\<close>

definition spec_totalBytes :: "KeyValueStore \<Rightarrow> int" where
  "spec_totalBytes kvs =
     (\<Sum>k \<in> fset (fmdom (store kvs)).
        int (length k) + int (length (the (fmlookup (store kvs) k))))"

subsection \<open>Sequences of store operations\<close>

datatype store_op = OpGet string | OpSet string string | OpGetStatus

fun apply_op :: "KeyValueStore \<Rightarrow> store_op \<Rightarrow> KeyValueStore" where
  "apply_op kvs (OpGet k) = kvs"
| "apply_op kvs (OpSet k v) = snd (Set kvs k v)"
| "apply_op kvs OpGetStatus = kvs"

definition run_ops :: "store_op list \<Rightarrow> KeyValueStore" where
  "run_ops ops = foldl apply_op NewKeyValueStore ops"

text \<open>The store invariants of the data model.\<close>

definition store_inv :: "KeyValueStore \<Rightarrow> bool" where
  "store_inv kvs \<longleftrightarrow>
     fmpred (\<lambda>k v. length k \<le> MaxKeySize \<and> length v \<le> MaxValueSize) (store kvs) \<and>
     fcard (fmdom (store kvs)) \<le> MaxKeyCount"

text \<open>A run that fills the store: \<open>n\<close> insertions of the distinct keys \<open>k\<close>, \<open>kk\<close>, \<open>kkk\<close>, ...\<close>

definition fill_key :: "nat \<Rightarrow> string" where
  "fill_key i = replicate (Suc i) CHR ''k''"

definition fill_ops :: "nat \<Rightarrow> store_op list" where
  "fill_ops n = map (\<lambda>i. OpSet (fill_key i) ''v'') [0..<n]"

definition full_store :: KeyValueStore where
  "full_store = run_ops (fill_ops 100)"

section \<open>Standard-library functions the server calls\<close>

text \<open>
  The handlers call functions of Go's standard library whose code is not part of the
  repository.  Those whose result depends on Unicode tables or on address syntax are taken as
  parameters, collected in a record: \<open>strings.Fields\<close>, \<open>strings.ToUpper\<close>,
  \<open>strings.TrimSpace\<close>, \<open>net.SplitHostPort\<close> (the host part, \<open>None\<close> on error),
  \<open>net.ParseIP\<close> (\<open>None\<close> for the nil address) and \<open>IPNet.Contains\<close> (which accepts a nil
  address).  \<open>'net\<close> is the type of networks and \<open>'ip\<close> the type of addresses.
\<close>

record ('net, 'ip) golib =
  Fields :: "string \<Rightarrow> string list"
  ToUpper :: "string \<Rightarrow> string"
  TrimSpace :: "string \<Rightarrow> string"
  SplitHostPort :: "string \<Rightarrow> string option"
  ParseIP :: "string \<Rightarrow> 'ip option"
  Contains :: "'net \<Rightarrow> 'ip option \<Rightarrow> bool"

text \<open>\<open>strings.Join(elems, sep)\<close>.\<close>

fun Join :: "string list \<Rightarrow> string \<Rightarrow> string" where
  "Join [] sep = ''''"
| "Join [x] sep = x"
| "Join (x # y # ys) sep = x @ sep @ Join (y # ys) sep"

text \<open>\<open>strings.Split(s, ":")[0]\<close>: the text before the first colon, all of \<open>s\<close> without one.\<close>

definition Split_colon_0 :: "string \<Rightarrow> string" where
  "Split_colon_0 s = takeWhile (\<lambda>c. c \<noteq> CHR '':'') s"

text \<open>
  An instance of the library for running the model on concrete ASCII requests.  On ASCII text
  \<open>strings.Fields\<close> splits at runs of tab, line feed, vertical tab, form feed, carriage
  return and space, \<open>strings.ToUpper\<close> maps \<open>a..z\<close> to \<open>A..Z\<close> and \<open>strings.TrimSpace\<close>
  strips the same white space at both ends.  Addresses are in the form \<open>host:port\<close>; an
  address is its host text and a network is the list of the addresses in it.
\<close>

definition isSpace :: "char \<Rightarrow> bool" where
  "isSpace c \<longleftrightarrow>
     c = CHR 0x09 \<or> c = CHR 0x0A \<or> c = CHR 0x0B \<or> c = CHR 0x0C \<or> c = CHR 0x0D \<or> c = CHR '' ''"

fun fields_from :: "string \<Rightarrow> string \<Rightarrow> string list" where
  "fields_from cur [] = (if cur = [] then [] else [cur])"
| "fields_from cur (c # cs) =
     (if isSpace c then (if cur = [] then fields_from [] cs else cur # fields_from [] cs)
      else fields_from (cur @ [c]) cs)"

definition ascii_Fields :: "string \<Rightarrow> string list" where
  "ascii_Fields s = fields_from [] s"

definition ascii_upper :: "char \<Rightarrow> char" where
  "ascii_upper c =
     (if 97 \<le> (of_char c :: nat) \<and> (of_char c :: nat) \<le> 122
      then char_of (of_char c - 32 :: nat) else c)"

definition ascii_ToUpper :: "string \<Rightarrow> string" where
  "ascii_ToUpper s = map ascii_upper s"

definition ascii_TrimSpace :: "string \<Rightarrow> string" where
  "ascii_TrimSpace s = rev (dropWhile isSpace (rev (dropWhile isSpace s)))"

definition host_of :: "string \<Rightarrow> string option" where
  "host_of s =
     (if CHR '':'' \<in> set s then Some (rev (tl (dropWhile (\<lambda>c. c \<noteq> CHR '':'') (rev s))))
      else None)"

definition ascii_lib :: "(string list, string) golib" where
  "ascii_lib =
     \<lparr>Fields = ascii_Fields, ToUpper = ascii_ToUpper, TrimSpace = ascii_TrimSpace,
      SplitHostPort = host_of,
      ParseIP = (\<lambda>s. if s = [] then None else Some s),
      Contains = (\<lambda>n ip. case ip of None \<Rightarrow> False | Some a \<Rightarrow> a \<in> set n)\<rparr>"

section \<open>Access control and responses (main.go)\<close>

record 'net AccessControl =
  AllowedCIDR :: "'net option"
  FirewallMode :: string

text \<open>
  \<open>TimeStamp\<close> is \<open>time.Now()\<close> formatted; the clock reading is the parameter \<open>now\<close> of
  every handler.  \<open>Data\<close> is \<open>nil\<close> or a \<open>StatusInfo\<close>.  The JSON encoding omits \<open>key\<close>,
  \<open>value\<close> and \<open>data\<close> when the field is empty (\<open>omitempty\<close>), so a field is present in the
  JSON text exactly when it is non-empty here.  Console logging is left out.
\<close>

record APIResponse =
  Status :: int
  Message :: string
  Key :: string
  Value :: string
  Data :: "StatusInfo option"
  TimeStamp :: string

text \<open>The flags of \<open>main\<close> that choose the policy (\<open>cidr = None\<close>: \<open>--allowed-cidr\<close> not given).\<close>

definition accessControlFromFlags ::
    "'net option \<Rightarrow> bool \<Rightarrow> bool \<Rightarrow> bool \<Rightarrow> 'net AccessControl" where
  "accessControlFromFlags cidr fwDrop fwReject simulateFirewall =
     (case cidr of
        Some n \<Rightarrow>
          \<lparr>AllowedCIDR = Some n,
           FirewallMode = (if fwDrop \<or> simulateFirewall then ''DROP''
                           else if fwReject then ''REJECT'' else ''ACCEPT'')\<rparr>
      | None \<Rightarrow> \<lparr>AllowedCIDR = None, FirewallMode = ''ACCEPT''\<rparr>)"

section \<open>The HTTP transport\<close>

text \<open>
  A request as the handlers read it: method, \<open>URL.Path\<close>, the parsed query (in order;
  \<open>Query().Get\<close> returns the first value of a name, \<open>""\<close> without one) and \<open>RemoteAddr\<close>.
  What a handler does to its \<open>ResponseWriter\<close> is one of: a JSON response sent with its
  status; the connection hijacked and closed with nothing written; or a return with nothing
  written (the writer was no \<open>http.Hijacker\<close>).
\<close>

record Request =
  Method :: string
  Path :: string
  Query :: "(string \<times> string) list"
  RemoteAddr :: string

datatype http_result = Sent APIResponse | Hijacked | Unwritten

definition Query_Get :: "(string \<times> string) list \<Rightarrow> string \<Rightarrow> string" where
  "Query_Get q name = (case map_of q name of None \<Rightarrow> '''' | Some v \<Rightarrow> v)"

datatype ip_error = SplitHostPortError | InvalidIP string

definition getIPFromRequest :: "('net, 'ip) golib \<Rightarrow> Request \<Rightarrow> ip_error + 'ip" where
  "getIPFromRequest lib r =
     (case SplitHostPort lib (RemoteAddr r) of
        None \<Rightarrow> Inl SplitHostPortError
      | Some ipStr \<Rightarrow>
          (case ParseIP lib ipStr of None \<Rightarrow> Inl (InvalidIP ipStr) | Some ip \<Rightarrow> Inr ip))"

definition sendJSONResponse ::
    "string \<Rightarrow> int \<Rightarrow> string \<Rightarrow> string \<Rightarrow> string \<Rightarrow> StatusInfo option \<Rightarrow> http_result" where
  "sendJSONResponse now status message key val data =
     Sent \<lparr>Status = status, Message = message,
           Key = (if status = 200 \<and> key \<noteq> '''' then key else ''''),
           Value = (if status = 200 \<and> key \<noteq> '''' then val else ''''),
           Data = data, TimeStamp = now\<rparr>"

type_synonym HandlerFunc = "KeyValueStore \<Rightarrow> Request \<Rightarrow> KeyValueStore \<times> http_result"

text \<open>\<open>hj\<close> tells whether the writer is an \<open>http.Hijacker\<close> (\<open>hj, ok := w.(http.Hijacker)\<close>).\<close>

definition accessMiddleware ::
    "('net, 'ip) golib \<Rightarrow> 'net AccessControl \<Rightarrow> string \<Rightarrow> bool \<Rightarrow> HandlerFunc \<Rightarrow> HandlerFunc" where
  "accessMiddleware lib ac now hj next kvs r =
     (case AllowedCIDR ac of
        None \<Rightarrow> next kvs r
      | Some cidr \<Rightarrow>
          (case getIPFromRequest lib r of
             Inl err \<Rightarrow> (kvs, sendJSONResponse now 500 ''Failed to parse client IP'' '''' '''' None)
           | Inr ip \<Rightarrow>
               if \<not> Contains lib cidr (Some ip) then
                 (if FirewallMode ac = ''DROP'' then (kvs, if hj then Hijacked else Unwritten)
                  else if FirewallMode ac = ''REJECT'' then
                    (kvs, sendJSONResponse now 403
                       ''Connection rejected by firewall: Your IP is not in the allowed range''
                       '''' '''' None)
                  else
                    (kvs, sendJSONResponse now 403
                       ''Access denied: Your IP is not in the allowed range'' '''' '''' None))
               else next kvs r))"

text \<open>\<open>fmt.Sprintf("Key '%s' not found", key)\<close> and \<open>fmt.Sprintf("Route '%s' not found", path)\<close>.\<close>

definition key_not_found :: "string \<Rightarrow> string" where
  "key_not_found key = ''Key '' @ [CHR 0x27] @ key @ [CHR 0x27] @ '' not found''"

definition route_not_found :: "string \<Rightarrow> string" where
  "route_not_found path = ''Route '' @ [CHR 0x27] @ path @ [CHR 0x27] @ '' not found''"

definition pingHandler :: "string \<Rightarrow> HandlerFunc" where
  "pingHandler now kvs r =
     (if Method r \<noteq> ''GET'' then
        (kvs, sendJSONResponse now 405 ''Method not allowed'' '''' '''' None)
      else (kvs, sendJSONResponse now 200 ''PONG'' ''ping'' ''PONG'' None))"

definition statusHandler :: "string \<Rightarrow> HandlerFunc" where
  "statusHandler now kvs r =
     (if Method r \<noteq> ''GET'' then
        (kvs, sendJSONResponse now 405 ''Method not allowed'' '''' '''' None)
      else (kvs, sendJSONResponse now 200 ''Status retrieved successfully'' ''status'' ''''
                   (Some (GetStatus kvs))))"

definition getHandler :: "string \<Rightarrow> HandlerFunc" where
  "getHandler now kvs r =
     (if Method r \<noteq> ''GET'' then
        (kvs, sendJSONResponse now 405 ''Method not allowed'' '''' '''' None)
      else let key = Query_Get (Query r) ''k'' in
        if key = '''' then (kvs, sendJSONResponse now 400 ''Missing key parameter'' '''' '''' None)
        else case Get kvs key of
          (val, exists) \<Rightarrow>
            if \<not> exists then (kvs, sendJSONResponse now 404 (key_not_found key) key '''' None)
            else (kvs, sendJSONResponse now 200 ''Key retrieved successfully'' key val None))"

definition setHandler :: "string \<Rightarrow> HandlerFunc" where
  "setHandler now kvs r =
     (if Method r \<noteq> ''POST'' \<and> Method r \<noteq> ''PUT'' then
        (kvs, sendJSONResponse now 405 ''Method not allowed'' '''' '''' None)
      else let key = Query_Get (Query r) ''k''; val = Query_Get (Query r) ''v'' in
        if key = '''' then (kvs, sendJSONResponse now 400 ''Missing key parameter'' '''' '''' None)
        else if val = '''' then
          (kvs, sendJSONResponse now 400 ''Missing value parameter'' '''' '''' None)
        else case Set kvs key val of
          (Some err, kvs') \<Rightarrow> (kvs', sendJSONResponse now 400 (Error err) key '''' None)
        | (None, kvs') \<Rightarrow> (kvs', sendJSONResponse now 200 ''Key set successfully'' key val None))"

definition notFoundHandler :: "string \<Rightarrow> HandlerFunc" where
  "notFoundHandler now kvs r =
     (kvs, sendJSONResponse now 404 (route_not_found (Path r)) '''' '''' None)"

text \<open>
  The catch-all \<open>handler\<close> of \<open>main\<close> asks the mux for the registered pattern.  The four
  patterns are fixed paths without a trailing slash, which the mux matches against the whole
  path; the model takes \<open>URL.Path\<close> in canonical form (the mux answers other paths with a
  redirect of its own).
\<close>

definition handler ::
    "('net, 'ip) golib \<Rightarrow> 'net AccessControl \<Rightarrow> string \<Rightarrow> bool \<Rightarrow> HandlerFunc" where
  "handler lib ac now hj kvs r =
     (if Path r = ''/api/ping'' then accessMiddleware lib ac now hj (pingHandler now) kvs r
      else if Path r = ''/api/status'' then
        accessMiddleware lib ac now hj (statusHandler now) kvs r
      else if Path r = ''/api/get'' then accessMiddleware lib ac now hj (getHandler now) kvs r
      else if Path r = ''/api/set'' then accessMiddleware lib ac now hj (setHandler now) kvs r
      else notFoundHandler now kvs r)"

section \<open>The UDP transport\<close>

text \<open>
  \<open>handleUDPCommand\<close> returns the JSON of a response, or \<open>nil\<close> (\<open>None\<close>).  \<open>udpDispatch\<close>
  is its part after the access check (from \<open>strings.Fields\<close> on).
\<close>

definition udpDispatch ::
    "('net, 'ip) golib \<Rightarrow> string \<Rightarrow> string \<Rightarrow> KeyValueStore
       \<Rightarrow> KeyValueStore \<times> APIResponse option" where
  "udpDispatch lib now command kvs =
     (let parts = Fields lib command in
      if length parts = 0 then
        (kvs, Some \<lparr>Status = 400, Message = ''Empty command'', Key = '''', Value = '''',
                     Data = None, TimeStamp = now\<rparr>)
      else let action = ToUpper lib (parts ! 0) in
        if action = ''PING'' then
          (kvs, Some \<lparr>Status = 200, Message = ''PONG'', Key = ''ping'', Value = ''PONG'',
                       Data = None, TimeStamp = now\<rparr>)
        else if action = ''STATUS'' then
          (kvs, Some \<lparr>Status = 200, Message = ''Status retrieved successfully'',
                       Key = ''status'', Value = '''', Data = Some (GetStatus kvs),
                       TimeStamp = now\<rparr>)
        else if action = ''GET'' then
          (if length parts < 2 then
             (kvs, Some \<lparr>Status = 400, Message = ''Missing key parameter'', Key = '''',
                          Value = '''', Data = None, TimeStamp = now\<rparr>)
           else let key = parts ! 1 in
             case Get kvs key of
               (val, exists) \<Rightarrow>
                 if \<not> exists then
                   (kvs, Some \<lparr>Status = 404, Message = key_not_found key, Key = key,
                                Value = '''', Data = None, TimeStamp = now\<rparr>)
                 else
                   (kvs, Some \<lparr>Status = 200, Message = ''Key retrieved successfully'',
                                Key = key, Value = val, Data = None, TimeStamp = now\<rparr>))
        else if action = ''SET'' then
          (if length parts < 2 then
             (kvs, Some \<lparr>Status = 400, Message = ''Missing key parameter'', Key = '''',
                          Value = '''', Data = None, TimeStamp = now\<rparr>)
           else if length parts < 3 then
             (kvs, Some \<lparr>Status = 400, Message = ''Missing value parameter'', Key = '''',
                          Value = '''', Data = None, TimeStamp = now\<rparr>)
           else let key = parts ! 1; val = Join (drop 2 parts) '' '' in
             case Set kvs key val of
               (Some err, kvs') \<Rightarrow>
                 (kvs', Some \<lparr>Status = 400, Message = Error err, Key = key, Value = '''',
                               Data = None, TimeStamp = now\<rparr>)
             | (None, kvs') \<Rightarrow>
                 (kvs', Some \<lparr>Status = 200, Message = ''Key set successfully'', Key = key,
                               Value = val, Data = None, TimeStamp = now\<rparr>))
        else
          (kvs, Some \<lparr>Status = 400, Message = ''Unknown command: '' @ action, Key = '''',
                       Value = '''', Data = None, TimeStamp = now\<rparr>))"

definition handleUDPCommand ::
    "('net, 'ip) golib \<Rightarrow> string \<Rightarrow> string \<Rightarrow> string \<Rightarrow> KeyValueStore
       \<Rightarrow> 'net AccessControl \<Rightarrow> KeyValueStore \<times> APIResponse option" where
  "handleUDPCommand lib now command addr kvs ac =
     (let ipStr = Split_colon_0 addr; ip = ParseIP lib ipStr in
      case AllowedCIDR ac of
        Some cidr \<Rightarrow>
          if \<not> Contains lib cidr ip then
            (if FirewallMode ac = ''DROP'' then (kvs, None)
             else if FirewallMode ac = ''REJECT'' then
               (kvs, Some \<lparr>Status = 403,
                            Message = ''Connection rejected by firewall: Your IP is not in the allowed range'',
                            Key = '''', Value = '''', Data = None, TimeStamp = now\<rparr>)
             else
               (kvs, Some \<lparr>Status = 403,
                            Message = ''Access denied: Your IP is not in the allowed range'',
                            Key = '''', Value = '''', Data = None, TimeStamp = now\<rparr>))
          else udpDispatch lib now command kvs
      | None \<Rightarrow> udpDispatch lib now command kvs)"

text \<open>
  One iteration of the receive loop of \<open>startUDPServer\<close> for a datagram that was read: the
  8192-byte buffer keeps at most that many bytes, the text is trimmed and handled, and the
  result is passed to \<open>conn.WriteToUDP\<close>, whatever it is.  The iteration yields the new
  store and the writes it issued; the payload \<open>None\<close> is the nil slice, a datagram of length
  zero.
\<close>

datatype udp_write = WriteToUDP "APIResponse option" string

definition startUDPServer_step ::
    "('net, 'ip) golib \<Rightarrow> string \<Rightarrow> string \<Rightarrow> string \<Rightarrow> KeyValueStore
       \<Rightarrow> 'net AccessControl \<Rightarrow> KeyValueStore \<times> udp_write list" where
  "startUDPServer_step lib now datagram clientAddr kvs ac =
     (let command = TrimSpace lib (take 8192 datagram) in
      case handleUDPCommand lib now command clientAddr kvs ac of
        (kvs', response) \<Rightarrow> (kvs', [WriteToUDP response clientAddr]))"

section \<open>Notions used to state the claims\<close>

text \<open>
  The condition under which the access check lets a request through, read off
  \<open>accessMiddleware\<close> and the head of \<open>handleUDPCommand\<close>: no range configured, or the
  address the code extracts is contained in the range.
\<close>

definition http_admits :: "('net, 'ip) golib \<Rightarrow> 'net AccessControl \<Rightarrow> Request \<Rightarrow> bool" where
  "http_admits lib ac r =
     (case AllowedCIDR ac of
        None \<Rightarrow> True
      | Some cidr \<Rightarrow>
          (case getIPFromRequest lib r of Inl err \<Rightarrow> False | Inr ip \<Rightarrow> Contains lib cidr (Some ip)))"

definition udp_admits :: "('net, 'ip) golib \<Rightarrow> 'net AccessControl \<Rightarrow> string \<Rightarrow> bool" where
  "udp_admits lib ac addr =
     (case AllowedCIDR ac of
        None \<Rightarrow> True
      | Some cidr \<Rightarrow> Contains lib cidr (ParseIP lib (Split_colon_0 addr)))"

text \<open>
  The responses that may carry a value: status 200 of PING, GET or SET.  The responses that
  may carry a key: status 200 of PING, STATUS, GET or SET, the 404 for a key that was not
  found, and the 400 that reports an error of \<open>Set\<close>.
\<close>

definition value_bearing :: "APIResponse \<Rightarrow> bool" where
  "value_bearing resp \<longleftrightarrow>
     Status resp = 200 \<and>
     (Message resp = ''PONG'' \<or> Message resp = ''Key retrieved successfully'' \<or>
      Message resp = ''Key set successfully'')"

definition key_bearing :: "APIResponse \<Rightarrow> bool" where
  "key_bearing resp \<longleftrightarrow>
     Status resp = 200 \<and>
       (Message resp = ''PONG'' \<or> Message resp = ''Status retrieved successfully'' \<or>
        Message resp = ''Key retrieved successfully'' \<or> Message resp = ''Key set successfully'') \<or>
     Status resp = 404 \<and> Message resp = key_not_found (Key resp) \<or>
     Status resp = 400 \<and>
       (Message resp = Error KeyTooLarge \<or> Message resp = Error ValueTooLarge \<or>
        Message resp = Error CapacityExceeded)"

text \<open>Configurations and requests of the examples.\<close>

definition open_ac :: "string list AccessControl" where
  "open_ac = accessControlFromFlags None False False False"

definition local_only :: "bool \<Rightarrow> bool \<Rightarrow> string list AccessControl" where
  "local_only fwDrop fwReject =
     accessControlFromFlags (Some [''127.0.0.1'']) fwDrop fwReject False"

definition http_req :: "string \<Rightarrow> string \<Rightarrow> (string \<times> string) list \<Rightarrow> Request" where
  "http_req m p q = \<lparr>Method = m, Path = p, Query = q, RemoteAddr = ''10.0.0.1:5000''\<rparr>"

text \<open>The rule for the two optional fields: a field that is present is on a response that may carry it.\<close>

definition fields_justified :: "APIResponse \<Rightarrow> bool" where
  "fields_justified resp \<longleftrightarrow>
     (Value resp \<noteq> '''' \<longrightarrow> value_bearing resp) \<and> (Key resp \<noteq> '''' \<longrightarrow> key_bearing resp)"

section \<open>Properties of the store\<close>

lemma absent_iff: "fmlookup m k = None \<longleftrightarrow> k |\<notin>| fmdom m"
  by (simp add: fmlookup_dom_iff)

text \<open>The four ways \<open>Set\<close> can end, each on its own.\<close>

lemma Set_ok:
  "length k \<le> 255 \<Longrightarrow> length v \<le> 1048576 \<Longrightarrow>
   k |\<in>| fmdom (store kvs) \<or> fcard (fmdom (store kvs)) < 100 \<Longrightarrow>
   Set kvs k v = (None, kvs\<lparr>store := fmupd k v (store kvs)\<rparr>)"
  by (auto simp: Set_def MaxKeySize_def MaxValueSize_def MaxKeyCount_def absent_iff)

lemma Set_key_too_large: "length k > 255 \<Longrightarrow> Set kvs k v = (Some KeyTooLarge, kvs)"
  by (simp add: Set_def MaxKeySize_def)

lemma Set_value_too_large:
  "length k \<le> 255 \<Longrightarrow> length v > 1048576 \<Longrightarrow> Set kvs k v = (Some ValueTooLarge, kvs)"
  by (simp add: Set_def MaxKeySize_def MaxValueSize_def)

lemma Set_capacity:
  "length k \<le> 255 \<Longrightarrow> length v \<le> 1048576 \<Longrightarrow> k |\<notin>| fmdom (store kvs) \<Longrightarrow>
   fcard (fmdom (store kvs)) \<ge> 100 \<Longrightarrow> Set kvs k v = (Some CapacityExceeded, kvs)"
  by (simp add: Set_def MaxKeySize_def MaxValueSize_def MaxKeyCount_def absent_iff)

lemma Get_absent: "k |\<notin>| fmdom (store kvs) \<Longrightarrow> Get kvs k = ('''', False)"
  by (simp add: Get_def fmdom_notD)

lemma Get_present: "fmlookup (store kvs) k = Some v \<Longrightarrow> Get kvs k = (v, True)"
  by (simp add: Get_def)

subsection \<open>The invariant holds along every run\<close>

lemma Set_preserves_inv: "store_inv kvs \<Longrightarrow> store_inv (snd (Set kvs k v))"
  by (auto simp: store_inv_def Set_def absent_iff fcard_finsert_if MaxKeyCount_def)

lemma apply_op_inv: "store_inv kvs \<Longrightarrow> store_inv (apply_op kvs x)"
  by (cases x) (simp_all add: Set_preserves_inv)

lemma foldl_inv: "store_inv kvs \<Longrightarrow> store_inv (foldl apply_op kvs ops)"
  by (induction ops arbitrary: kvs) (simp_all add: apply_op_inv)

lemma New_inv: "store_inv NewKeyValueStore"
  by (simp add: store_inv_def NewKeyValueStore_def fcard_fempty)

lemma run_ops_inv: "store_inv (run_ops ops)"
  unfolding run_ops_def by (rule foldl_inv [OF New_inv])

subsection \<open>The run that fills the store\<close>

lemma fill_ops_Suc:
  "run_ops (fill_ops (Suc n)) = snd (Set (run_ops (fill_ops n)) (fill_key n) ''v'')"
  by (simp add: run_ops_def fill_ops_def)

lemma fill_key_inj: "fill_key i = fill_key j \<longleftrightarrow> i = j"
  by (metis fill_key_def length_replicate nat.inject)

lemma fill_dom:
  "n \<le> 100 \<Longrightarrow>
   fmdom (store (run_ops (fill_ops n))) = fill_key |`| fset_of_list [0..<n] \<and>
   fcard (fmdom (store (run_ops (fill_ops n)))) = n"
proof (induction n)
  case 0
  then show ?case by (simp add: run_ops_def fill_ops_def NewKeyValueStore_def fcard_fempty)
next
  case (Suc n)
  from Suc have IH1: "fmdom (store (run_ops (fill_ops n))) = fill_key |`| fset_of_list [0..<n]"
    by simp
  from Suc have IH2: "fcard (fmdom (store (run_ops (fill_ops n)))) = n" by linarith
  have notin: "fill_key n |\<notin>| fmdom (store (run_ops (fill_ops n)))"
    unfolding IH1 by (auto simp: fill_key_inj fset_of_list.rep_eq)
  have len: "length (fill_key n) \<le> 255" using Suc.prems by (simp add: fill_key_def)
  have "n < 100" using Suc.prems by simp
  then have st: "store (run_ops (fill_ops (Suc n))) =
                 fmupd (fill_key n) ''v'' (store (run_ops (fill_ops n)))"
    unfolding fill_ops_Suc using Set_ok [of "fill_key n" "''v''" "run_ops (fill_ops n)"] len IH2
    by simp
  have d: "fmdom (store (run_ops (fill_ops (Suc n)))) =
           finsert (fill_key n) (fmdom (store (run_ops (fill_ops n))))"
    unfolding st by simp
  have "fcard (fmdom (store (run_ops (fill_ops (Suc n))))) = Suc n"
    unfolding d using notin IH2 by (simp add: fcard_finsert_if)
  moreover have "fmdom (store (run_ops (fill_ops (Suc n)))) = fill_key |`| fset_of_list [0..<Suc n]"
    unfolding d IH1 by auto
  ultimately show ?case by blast
qed

lemma full_card: "fcard (fmdom (store full_store)) = 100"
  unfolding full_store_def using fill_dom [of 100] by blast

lemma full_dom: "k |\<in>| fmdom (store full_store) \<longleftrightarrow> (\<exists>i<100. k = fill_key i)"
proof -
  have "fmdom (store full_store) = fill_key |`| fset_of_list [0..<100]"
    unfolding full_store_def using fill_dom [of 100] by blast
  then show ?thesis by (auto simp: fset_of_list.rep_eq)
qed

lemma key_k_in_full: "''k'' |\<in>| fmdom (store full_store)"
  unfolding full_dom by (rule exI [of _ 0]) (simp add: fill_key_def)

lemma new_notin_full: "''new'' |\<notin>| fmdom (store full_store)"
  unfolding full_dom by (simp add: fill_key_def)

lemma long_notin_full: "replicate 256 CHR ''k'' |\<notin>| fmdom (store full_store)"
proof
  assume "replicate 256 CHR ''k'' |\<in>| fmdom (store full_store)"
  then obtain i where "i < 100" "replicate 256 CHR ''k'' = fill_key i"
    unfolding full_dom by blast
  then have "length (replicate 256 CHR ''k'') = Suc i" by (simp add: fill_key_def)
  with \<open>i < 100\<close> show False by simp
qed

lemma run_one_Set: "fmlookup (store (run_ops [OpSet ''a'' ''hello''])) ''a'' = Some ''hello''"
  by (simp add: run_ops_def Set_ok NewKeyValueStore_def fcard_fempty)

subsection \<open>The byte total of GetStatus\<close>

lemma spec_totalBytes_nat:
  "spec_totalBytes kvs =
   int (\<Sum>k \<in> fset (fmdom (store kvs)). length k + length (the (fmlookup (store kvs) k)))"
  by (simp add: spec_totalBytes_def)

lemma MemoryUsage_of_nat:
  "MemoryUsage (GetStatus kvs) =
   of_nat (\<Sum>k \<in> fset (fmdom (store kvs)). length k + length (the (fmlookup (store kvs) k)))"
  by (simp add: GetStatus_def)

lemma sint_of_nat_64:
  assumes "int n < 2 ^ 63"
  shows "sint (of_nat n :: 64 word) = int n"
proof -
  have "sint (of_nat n :: 64 word) = sint (word_of_int (int n) :: 64 word)" by simp
  also have "\<dots> = signed_take_bit 63 (int n)" by (simp only: sint_sbintrunc') simp
  also have "\<dots> = int n" using assms by (intro signed_take_bit_int_eq_self) simp_all
  finally show ?thesis .
qed

lemma GetStatus_exact:
  "spec_totalBytes kvs < 2 ^ 63 \<Longrightarrow> sint (MemoryUsage (GetStatus kvs)) = spec_totalBytes kvs"
  unfolding MemoryUsage_of_nat spec_totalBytes_nat by (rule sint_of_nat_64)

text \<open>A store that satisfies the invariant holds at most 100 entries of at most 255 + 1048576 bytes.\<close>

lemma inv_total_bound: "store_inv kvs \<Longrightarrow> spec_totalBytes kvs \<le> 104883100"
proof -
  assume inv: "store_inv kvs"
  let ?A = "fset (fmdom (store kvs))"
  have each: "length k + length (the (fmlookup (store kvs) k)) \<le> 1048831" if "k \<in> ?A" for k
  proof -
    from that obtain v where v: "fmlookup (store kvs) k = Some v"
      by (auto simp: fmlookup_dom_iff)
    with inv have "length k \<le> 255 \<and> length v \<le> 1048576"
      by (auto simp: store_inv_def fmpred_iff MaxKeySize_def MaxValueSize_def)
    with v show ?thesis by simp
  qed
  have "(\<Sum>k \<in> ?A. length k + length (the (fmlookup (store kvs) k))) \<le> (\<Sum>k \<in> ?A. 1048831)"
    by (rule sum_mono) (rule each)
  also have "\<dots> = card ?A * 1048831" by simp
  also have "\<dots> \<le> 100 * 1048831"
    using inv by (simp add: store_inv_def MaxKeyCount_def fcard.rep_eq)
  finally show ?thesis unfolding spec_totalBytes_nat by linarith
qed

section \<open>Claims about the store\<close>

subsection \<open>C1: the outcome of Set\<close>

text \<open>
  C1, as stated, fails: the size checks run in sequence, so a call whose key and value are
  both oversized reports the key, not the value, although \<open>len(v) > 1048576\<close>.
\<close>

theorem Set_value_error_not_iff:
  "length (replicate 1048577 CHR ''v'') > 1048576 \<and>
   fst (Set NewKeyValueStore (replicate 256 CHR ''k'') (replicate 1048577 CHR ''v''))
     \<noteq> Some ValueTooLarge"
  by (simp add: Set_def MaxKeySize_def)

text \<open>
  C1, amended: \<open>Set\<close> reports a key-size error iff \<open>len(k) > 255\<close>; a value-size error iff
  the key fits and \<open>len(v) > 1048576\<close>; a capacity error iff key and value fit, \<open>k\<close> is not
  present and the store holds at least 100 keys; otherwise it succeeds and binds \<open>k\<close> to
  \<open>v\<close>.  On every failure the store is returned unchanged.
\<close>

theorem Set_outcome:
  "(fst (Set kvs k v) = Some KeyTooLarge \<longleftrightarrow> length k > 255) \<and>
   (fst (Set kvs k v) = Some ValueTooLarge \<longleftrightarrow> length k \<le> 255 \<and> length v > 1048576) \<and>
   (fst (Set kvs k v) = Some CapacityExceeded \<longleftrightarrow>
      length k \<le> 255 \<and> length v \<le> 1048576 \<and> k |\<notin>| fmdom (store kvs) \<and>
      fcard (fmdom (store kvs)) \<ge> 100) \<and>
   (fst (Set kvs k v) = None \<longleftrightarrow>
      length k \<le> 255 \<and> length v \<le> 1048576 \<and>
      (k |\<in>| fmdom (store kvs) \<or> fcard (fmdom (store kvs)) < 100)) \<and>
   (fst (Set kvs k v) = None \<longrightarrow> store (snd (Set kvs k v)) = fmupd k v (store kvs)) \<and>
   (fst (Set kvs k v) \<noteq> None \<longrightarrow> snd (Set kvs k v) = kvs)"
  by (auto simp: Set_def MaxKeySize_def MaxValueSize_def MaxKeyCount_def absent_iff)

theorem Set_outcome_witness:
  "fst (Set NewKeyValueStore (replicate 256 CHR ''k'') ''v'') = Some KeyTooLarge \<and>
   snd (Set NewKeyValueStore (replicate 256 CHR ''k'') ''v'') = NewKeyValueStore \<and>
   fst (Set NewKeyValueStore ''a'' ''hello'') = None \<and>
   store (snd (Set NewKeyValueStore ''a'' ''hello'')) = fmupd ''a'' ''hello'' fmempty"
  using Set_outcome [of NewKeyValueStore "replicate 256 CHR ''k''" "''v''"]
        Set_outcome [of NewKeyValueStore "''a''" "''hello''"]
  by (simp add: NewKeyValueStore_def fcard_fempty)

subsection \<open>C2: the invariants along every run\<close>

text \<open>
  C2, as stated, fails at the full store for oversized arguments: after the 100 insertions of
  \<open>fill_ops 100\<close>, \<open>Set\<close> of the existing key \<open>k\<close> with a value of 1048577 bytes does not
  succeed (value-size error), and \<open>Set\<close> of a new key of 256 bytes fails with the key-size
  error, not the capacity error.
\<close>

theorem full_store_Set_other_errors:
  "fcard (fmdom (store (run_ops (fill_ops 100)))) = 100 \<and>
   ''k'' |\<in>| fmdom (store (run_ops (fill_ops 100))) \<and>
   fst (Set (run_ops (fill_ops 100)) ''k'' (replicate 1048577 CHR ''v'')) = Some ValueTooLarge \<and>
   replicate 256 CHR ''k'' |\<notin>| fmdom (store (run_ops (fill_ops 100))) \<and>
   fst (Set (run_ops (fill_ops 100)) (replicate 256 CHR ''k'') ''v'') = Some KeyTooLarge"
  using full_card key_k_in_full long_notin_full
  by (simp add: full_store_def Set_key_too_large Set_value_too_large)

text \<open>
  C2, amended: after every sequence of \<open>Get\<close>, \<open>Set\<close> and \<open>GetStatus\<close> calls from the empty
  store, every stored key has at most 255 bytes, every stored value at most 1048576 bytes and
  there are at most 100 keys; at exactly 100 keys, \<open>Set\<close> of a new key fails with the capacity
  error and leaves the store as it is, when key and value are within the size limits; \<open>Set\<close>
  of an existing key with a value within the limit succeeds (at any count, 100 included) and
  leaves the number of keys unchanged.
\<close>

theorem store_invariants:
  "(fmlookup (store (run_ops ops)) k' = Some v' \<longrightarrow>
      length k' \<le> 255 \<and> length v' \<le> 1048576) \<and>
   fcard (fmdom (store (run_ops ops))) \<le> 100 \<and>
   (fcard (fmdom (store (run_ops ops))) = 100 \<and> k |\<notin>| fmdom (store (run_ops ops)) \<and>
    length k \<le> 255 \<and> length v \<le> 1048576 \<longrightarrow>
      Set (run_ops ops) k v = (Some CapacityExceeded, run_ops ops)) \<and>
   (k |\<in>| fmdom (store (run_ops ops)) \<and> length v \<le> 1048576 \<longrightarrow>
      fst (Set (run_ops ops) k v) = None \<and>
      fcard (fmdom (store (snd (Set (run_ops ops) k v)))) =
        fcard (fmdom (store (run_ops ops))))"
proof -
  have inv: "store_inv (run_ops ops)" by (rule run_ops_inv)
  have sizes: "fmlookup (store (run_ops ops)) k' = Some v' \<longrightarrow>
                 length k' \<le> 255 \<and> length v' \<le> 1048576"
    using inv by (auto simp: store_inv_def fmpred_iff MaxKeySize_def MaxValueSize_def)
  have count: "fcard (fmdom (store (run_ops ops))) \<le> 100"
    using inv by (simp add: store_inv_def MaxKeyCount_def)
  have new: "fcard (fmdom (store (run_ops ops))) = 100 \<and> k |\<notin>| fmdom (store (run_ops ops)) \<and>
    length k \<le> 255 \<and> length v \<le> 1048576 \<longrightarrow>
      Set (run_ops ops) k v = (Some CapacityExceeded, run_ops ops)"
    by (simp add: Set_capacity)
  have old: "fst (Set (run_ops ops) k v) = None \<and>
      fcard (fmdom (store (snd (Set (run_ops ops) k v)))) = fcard (fmdom (store (run_ops ops)))"
    if k: "k |\<in>| fmdom (store (run_ops ops))" and v: "length v \<le> 1048576"
  proof -
    from k obtain w where "fmlookup (store (run_ops ops)) k = Some w"
      by (auto simp: fmlookup_dom_iff)
    with inv have "length k \<le> 255"
      by (auto simp: store_inv_def fmpred_iff MaxKeySize_def)
    then have "Set (run_ops ops) k v =
               (None, (run_ops ops)\<lparr>store := fmupd k v (store (run_ops ops))\<rparr>)"
      using k v by (simp add: Set_ok)
    then show ?thesis using k by (simp add: fcard_finsert_if)
  qed
  from sizes count new old show ?thesis by blast
qed

theorem store_invariants_witness:
  "fcard (fmdom (store (run_ops (fill_ops 100)))) = 100 \<and>
   ''new'' |\<notin>| fmdom (store (run_ops (fill_ops 100))) \<and>
   Set (run_ops (fill_ops 100)) ''new'' ''x'' = (Some CapacityExceeded, run_ops (fill_ops 100)) \<and>
   ''k'' |\<in>| fmdom (store (run_ops (fill_ops 100))) \<and>
   fst (Set (run_ops (fill_ops 100)) ''k'' ''x'') = None \<and>
   fcard (fmdom (store (snd (Set (run_ops (fill_ops 100)) ''k'' ''x'')))) = 100 \<and>
   fmlookup (store (run_ops [OpSet ''a'' ''hello''])) ''a'' = Some ''hello'' \<and>
   length ''a'' \<le> 255 \<and> length ''hello'' \<le> 1048576"
proof -
  have c: "fcard (fmdom (store (run_ops (fill_ops 100)))) = 100"
    using full_card by (simp add: full_store_def)
  have n: "''new'' |\<notin>| fmdom (store (run_ops (fill_ops 100)))"
    using new_notin_full by (simp add: full_store_def)
  have k: "''k'' |\<in>| fmdom (store (run_ops (fill_ops 100)))"
    using key_k_in_full by (simp add: full_store_def)
  show ?thesis
    using store_invariants [of "fill_ops 100" "''k''" "''v''" "''new''" "''x''"]
          store_invariants [of "fill_ops 100" "''k''" "''v''" "''k''" "''x''"]
          store_invariants [of "[OpSet ''a'' ''hello'']" "''a''" "''hello''" "''a''" "''x''"]
          c n k run_one_Set
    by simp
qed

subsection \<open>C3: Set then Get\<close>

text \<open>
  C3, as stated, fails at the full store: \<open>Set\<close> of a new key within the size limits is
  refused there, and the \<open>Get\<close> that follows misses.
\<close>

theorem Set_full_then_Get_misses:
  "length ''new'' \<le> 255 \<and> length ''v'' \<le> 1048576 \<and>
   Get (snd (Set (run_ops (fill_ops 100)) ''new'' ''v'')) ''new'' = ('''', False)"
  using Set_capacity [of "''new''" "''v''" full_store] new_notin_full full_card
  by (simp add: full_store_def Get_absent)

text \<open>
  C3, amended: for a key of at most 255 bytes and a value of at most 1048576 bytes, on a store
  that holds the key already or holds fewer than 100 keys, \<open>Set(k, v)\<close> succeeds and \<open>Get(k)\<close>
  then returns \<open>(v, true)\<close>; for a key absent from the store \<open>Get\<close> returns \<open>("", false)\<close>
  (\<open>Get\<close> has no error result).
\<close>

theorem Set_then_Get:
  "(length k \<le> 255 \<and> length v \<le> 1048576 \<and>
    (k |\<in>| fmdom (store kvs) \<or> fcard (fmdom (store kvs)) < 100) \<longrightarrow>
      fst (Set kvs k v) = None \<and> Get (snd (Set kvs k v)) k = (v, True)) \<and>
   (k |\<notin>| fmdom (store kvs) \<longrightarrow> Get kvs k = ('''', False))"
  by (auto simp: Set_ok Get_present Get_absent)

theorem Set_then_Get_witness:
  "Get (snd (Set NewKeyValueStore ''a'' ''hello'')) ''a'' = (''hello'', True) \<and>
   Get NewKeyValueStore ''b'' = ('''', False)"
  using Set_then_Get [of "''a''" "''hello''" NewKeyValueStore]
        Set_then_Get [of "''b''" "''''" NewKeyValueStore]
  by (simp add: NewKeyValueStore_def fcard_fempty)

section \<open>Properties of the transports\<close>

subsection \<open>The access check\<close>

lemma accessMiddleware_admits:
  "http_admits lib ac r \<Longrightarrow> accessMiddleware lib ac now hj next kvs r = next kvs r"
  by (auto simp: http_admits_def accessMiddleware_def split: option.splits sum.splits)

lemma handleUDPCommand_admits:
  "udp_admits lib ac addr \<Longrightarrow>
   handleUDPCommand lib now command addr kvs ac = udpDispatch lib now command kvs"
  by (auto simp: udp_admits_def handleUDPCommand_def Let_def split: option.splits)

text \<open>Behind the middleware, a source outside the range gets the outcome of the mode.\<close>

lemma accessMiddleware_outside:
  "AllowedCIDR ac = Some cidr \<Longrightarrow> getIPFromRequest lib r = Inr ip \<Longrightarrow>
   \<not> Contains lib cidr (Some ip) \<Longrightarrow>
   accessMiddleware lib ac now hj next kvs r =
     (kvs,
      if FirewallMode ac = ''DROP'' then (if hj then Hijacked else Unwritten)
      else if FirewallMode ac = ''REJECT'' then
        Sent \<lparr>Status = 403,
              Message = ''Connection rejected by firewall: Your IP is not in the allowed range'',
              Key = '''', Value = '''', Data = None, TimeStamp = now\<rparr>
      else
        Sent \<lparr>Status = 403, Message = ''Access denied: Your IP is not in the allowed range'',
              Key = '''', Value = '''', Data = None, TimeStamp = now\<rparr>)"
  by (simp add: accessMiddleware_def sendJSONResponse_def)

lemma handleUDPCommand_outside:
  "AllowedCIDR ac = Some cidr \<Longrightarrow> \<not> Contains lib cidr (ParseIP lib (Split_colon_0 addr)) \<Longrightarrow>
   handleUDPCommand lib now command addr kvs ac =
     (kvs,
      if FirewallMode ac = ''DROP'' then None
      else if FirewallMode ac = ''REJECT'' then
        Some \<lparr>Status = 403,
              Message = ''Connection rejected by firewall: Your IP is not in the allowed range'',
              Key = '''', Value = '''', Data = None, TimeStamp = now\<rparr>
      else
        Some \<lparr>Status = 403, Message = ''Access denied: Your IP is not in the allowed range'',
              Key = '''', Value = '''', Data = None, TimeStamp = now\<rparr>)"
  by (simp add: handleUDPCommand_def Let_def)

text \<open>Without a firewall flag the mode is \<open>ACCEPT\<close>.\<close>

lemma default_mode: "FirewallMode (accessControlFromFlags cidr False False False) = ''ACCEPT''"
  by (simp add: accessControlFromFlags_def split: option.splits)

text \<open>Every iteration of the UDP loop issues exactly one write, to the sender.\<close>

lemma startUDPServer_step_writes_once:
  "snd (startUDPServer_step lib now datagram addr kvs ac) =
   [WriteToUDP (snd (handleUDPCommand lib now (TrimSpace lib (take 8192 datagram)) addr kvs ac))
      addr]"
  by (simp add: startUDPServer_step_def Let_def split: prod.splits)

text \<open>A path that is none of the four patterns goes to \<open>notFoundHandler\<close>, whatever the policy.\<close>

lemma handler_unrouted:
  "Path r \<noteq> ''/api/ping'' \<Longrightarrow> Path r \<noteq> ''/api/status'' \<Longrightarrow> Path r \<noteq> ''/api/get'' \<Longrightarrow>
   Path r \<noteq> ''/api/set'' \<Longrightarrow>
   handler lib ac now hj kvs r =
     (kvs, Sent \<lparr>Status = 404, Message = route_not_found (Path r), Key = '''', Value = '''',
                  Data = None, TimeStamp = now\<rparr>)"
  by (simp add: handler_def notFoundHandler_def sendJSONResponse_def)

subsection \<open>The example configurations\<close>

lemma open_admits_http: "http_admits lib open_ac r"
  by (simp add: http_admits_def open_ac_def accessControlFromFlags_def)

lemma open_admits_udp: "udp_admits lib open_ac addr"
  by (simp add: udp_admits_def open_ac_def accessControlFromFlags_def)

lemma outside_http: "getIPFromRequest ascii_lib (http_req m p q) = Inr ''10.0.0.1''"
  by (simp add: getIPFromRequest_def ascii_lib_def http_req_def host_of_def)

lemma outside_udp: "ParseIP ascii_lib (Split_colon_0 ''10.0.0.1:5000'') = Some ''10.0.0.1''"
  by (simp add: ascii_lib_def Split_colon_0_def)

lemma not_local: "\<not> Contains ascii_lib [''127.0.0.1''] (Some ''10.0.0.1'')"
  by (simp add: ascii_lib_def)

lemma ping_dropped_http:
  "handler ascii_lib (local_only True False) now True kvs (http_req ''GET'' ''/api/ping'' []) =
   (kvs, Hijacked)"
  using accessMiddleware_outside [of "local_only True False" "[''127.0.0.1'']" ascii_lib
          "http_req ''GET'' ''/api/ping'' []" "''10.0.0.1''"]
        outside_http not_local
  by (simp add: handler_def local_only_def accessControlFromFlags_def http_req_def)

lemma Fields_GET_b: "Fields ascii_lib ''GET b'' = [''GET'', ''b'']"
  by (simp add: ascii_lib_def ascii_Fields_def isSpace_def)

lemma Fields_SET_greeting:
  "Fields ascii_lib ''SET greeting Hello, World!'' = [''SET'', ''greeting'', ''Hello,'', ''World!'']"
  by (simp add: ascii_lib_def ascii_Fields_def isSpace_def)

lemma Fields_SET_a: "Fields ascii_lib ''SET a hello'' = [''SET'', ''a'', ''hello'']"
  by (simp add: ascii_lib_def ascii_Fields_def isSpace_def)

lemma Fields_STATUS: "Fields ascii_lib ''STATUS'' = [''STATUS'']"
  by (simp add: ascii_lib_def ascii_Fields_def isSpace_def)

lemma TrimSpace_SET_greeting:
  "TrimSpace ascii_lib ''SET greeting Hello, World!'' = ''SET greeting Hello, World!''"
  by (simp add: ascii_lib_def ascii_TrimSpace_def isSpace_def)

lemma ToUpper_GET: "ToUpper ascii_lib ''GET'' = ''GET''"
  by (simp add: ascii_lib_def ascii_ToUpper_def ascii_upper_def)

lemma ToUpper_SET: "ToUpper ascii_lib ''SET'' = ''SET''"
  by (simp add: ascii_lib_def ascii_ToUpper_def ascii_upper_def)

lemma ToUpper_STATUS: "ToUpper ascii_lib ''STATUS'' = ''STATUS''"
  by (simp add: ascii_lib_def ascii_ToUpper_def ascii_upper_def)

subsection \<open>The optional fields of a response\<close>

lemma Set_error_cases:
  "Set kvs k v = (Some e, kvs') \<Longrightarrow> e = KeyTooLarge \<or> e = ValueTooLarge \<or> e = CapacityExceeded"
  by (cases e) simp_all

lemma inner_rules:
  "snd (pingHandler now kvs r) = Sent resp \<Longrightarrow> fields_justified resp"
  "snd (statusHandler now kvs r) = Sent resp \<Longrightarrow> fields_justified resp"
  "snd (getHandler now kvs r) = Sent resp \<Longrightarrow> fields_justified resp"
  "snd (setHandler now kvs r) = Sent resp \<Longrightarrow> fields_justified resp"
  "snd (notFoundHandler now kvs r) = Sent resp \<Longrightarrow> fields_justified resp"
  by (auto simp: pingHandler_def statusHandler_def getHandler_def setHandler_def
        notFoundHandler_def sendJSONResponse_def value_bearing_def key_bearing_def
        fields_justified_def Let_def
        split: if_splits prod.splits option.splits)

lemma middleware_rule:
  assumes "snd (accessMiddleware lib ac now hj next kvs r) = Sent resp"
      and "\<And>resp. snd (next kvs r) = Sent resp \<Longrightarrow> fields_justified resp"
  shows "fields_justified resp"
proof (cases "http_admits lib ac r")
  case True
  with assms show ?thesis by (simp add: accessMiddleware_admits)
next
  case False
  with assms(1) show ?thesis
    by (auto simp: accessMiddleware_def http_admits_def sendJSONResponse_def
          fields_justified_def split: if_splits option.splits sum.splits)
qed

lemma http_rule:
  assumes "snd (handler lib ac now hj kvs r) = Sent resp"
  shows "fields_justified resp"
proof -
  consider (ping) "Path r = ''/api/ping''" | (status) "Path r = ''/api/status''"
    | (get) "Path r = ''/api/get''" | (set) "Path r = ''/api/set''"
    | (none) "Path r \<noteq> ''/api/ping''" "Path r \<noteq> ''/api/status''" "Path r \<noteq> ''/api/get''"
        "Path r \<noteq> ''/api/set''"
    by blast
  then show ?thesis
  proof cases
    case ping
    with assms have "snd (accessMiddleware lib ac now hj (pingHandler now) kvs r) = Sent resp"
      by (simp add: handler_def)
    then show ?thesis by (rule middleware_rule) (rule inner_rules)
  next
    case status
    with assms have "snd (accessMiddleware lib ac now hj (statusHandler now) kvs r) = Sent resp"
      by (simp add: handler_def)
    then show ?thesis by (rule middleware_rule) (rule inner_rules)
  next
    case get
    with assms have "snd (accessMiddleware lib ac now hj (getHandler now) kvs r) = Sent resp"
      by (simp add: handler_def)
    then show ?thesis by (rule middleware_rule) (rule inner_rules)
  next
    case set
    with assms have "snd (accessMiddleware lib ac now hj (setHandler now) kvs r) = Sent resp"
      by (simp add: handler_def)
    then show ?thesis by (rule middleware_rule) (rule inner_rules)
  next
    case none
    with assms have "snd (notFoundHandler now kvs r) = Sent resp"
      by (simp add: handler_def)
    then show ?thesis by (rule inner_rules)
  qed
qed

lemma udpDispatch_rule:
  assumes "snd (udpDispatch lib now command kvs) = Some resp"
  shows "fields_justified resp"
  using assms
  by (auto simp: udpDispatch_def value_bearing_def key_bearing_def fields_justified_def Let_def
        dest: Set_error_cases split: if_splits prod.splits option.splits)

lemma udp_rule:
  assumes "snd (handleUDPCommand lib now command addr kvs ac) = Some resp"
  shows "fields_justified resp"
proof (cases "udp_admits lib ac addr")
  case True
  with assms show ?thesis by (simp add: handleUDPCommand_admits udpDispatch_rule)
next
  case False
  then obtain cidr where "AllowedCIDR ac = Some cidr"
    "\<not> Contains lib cidr (ParseIP lib (Split_colon_0 addr))"
    by (auto simp: udp_admits_def split: option.splits)
  with assms show ?thesis
    by (auto simp: handleUDPCommand_outside fields_justified_def split: if_splits)
qed

lemma udp_GET_b:
  "handleUDPCommand ascii_lib now ''GET b'' addr NewKeyValueStore open_ac =
   (NewKeyValueStore,
    Some \<lparr>Status = 404, Message = key_not_found ''b'', Key = ''b'', Value = '''', Data = None,
          TimeStamp = now\<rparr>)"
  by (simp add: handleUDPCommand_admits [OF open_admits_udp] udpDispatch_def Fields_GET_b
        ToUpper_GET Get_def NewKeyValueStore_def Let_def)

lemma http_ping:
  "handler lib open_ac now hj kvs (http_req ''GET'' ''/api/ping'' []) =
   (kvs, Sent \<lparr>Status = 200, Message = ''PONG'', Key = ''ping'', Value = ''PONG'', Data = None,
               TimeStamp = now\<rparr>)"
  by (simp add: handler_def accessMiddleware_admits [OF open_admits_http] pingHandler_def
        http_req_def sendJSONResponse_def)

subsection \<open>The SET command of the UDP protocol\<close>

lemma udpDispatch_SET:
  assumes "Fields lib command = parts" "3 \<le> length parts" "ToUpper lib (parts ! 0) = ''SET''"
    and "k = parts ! 1" "v = Join (drop 2 parts) '' ''"
  shows "udpDispatch lib now command kvs =
     (case Set kvs k v of
        (Some err, kvs') \<Rightarrow>
          (kvs', Some \<lparr>Status = 400, Message = Error err, Key = k, Value = [],
                        Data = None, TimeStamp = now\<rparr>)
      | (None, kvs') \<Rightarrow>
          (kvs', Some \<lparr>Status = 200, Message = ''Key set successfully'', Key = k,
                        Value = v, Data = None, TimeStamp = now\<rparr>))"
  using assms by (auto simp: udpDispatch_def Let_def)

lemma Set_None_store:
  "fst (Set kvs k v) = None \<Longrightarrow> Set kvs k v = (None, kvs\<lparr>store := fmupd k v (store kvs)\<rparr>)"
  by (simp add: Set_def split: if_splits)

lemma udp_SET_greeting:
  "fst (startUDPServer_step ascii_lib now ''SET greeting Hello, World!'' addr NewKeyValueStore open_ac) =
   \<lparr>store = fmupd ''greeting'' ''Hello, World!'' fmempty\<rparr>"
  by (simp add: udpDispatch_SET [OF Fields_SET_greeting _ _ refl refl] startUDPServer_step_def
        TrimSpace_SET_greeting handleUDPCommand_admits [OF open_admits_udp]
        ToUpper_SET Set_ok NewKeyValueStore_def fcard_fempty split: prod.splits)

text \<open>The loop iteration in terms of \<open>handleUDPCommand\<close>, and the SET branch behind the access check.\<close>

lemma startUDPServer_step_eq:
  "startUDPServer_step lib now datagram addr kvs ac =
   (fst (handleUDPCommand lib now (TrimSpace lib (take 8192 datagram)) addr kvs ac),
    [WriteToUDP (snd (handleUDPCommand lib now (TrimSpace lib (take 8192 datagram)) addr kvs ac))
       addr])"
  by (simp add: startUDPServer_step_def Let_def split: prod.splits)

lemma handleUDPCommand_SET:
  assumes "udp_admits lib ac addr" "Fields lib command = parts" "3 \<le> length parts"
    "ToUpper lib (parts ! 0) = ''SET''" "k = parts ! 1" "v = Join (drop 2 parts) '' ''"
  shows "handleUDPCommand lib now command addr kvs ac =
     (case Set kvs k v of
        (Some err, kvs') \<Rightarrow>
          (kvs', Some \<lparr>Status = 400, Message = Error err, Key = k, Value = [],
                        Data = None, TimeStamp = now\<rparr>)
      | (None, kvs') \<Rightarrow>
          (kvs', Some \<lparr>Status = 200, Message = ''Key set successfully'', Key = k,
                        Value = v, Data = None, TimeStamp = now\<rparr>))"
  using assms(1) udpDispatch_SET [OF assms(2-6)] by (simp add: handleUDPCommand_admits)

lemma handleUDPCommand_SET_result:
  assumes "udp_admits lib ac addr" "Fields lib command = parts" "3 \<le> length parts"
    "ToUpper lib (parts ! 0) = ''SET''"
  shows "fst (handleUDPCommand lib now command addr kvs ac) =
           snd (Set kvs (parts ! 1) (Join (drop 2 parts) '' ''))"
    and "length (parts ! 1) \<le> 255 \<Longrightarrow> length (Join (drop 2 parts) '' '') \<le> 1048576 \<Longrightarrow>
         parts ! 1 |\<in>| fmdom (store kvs) \<or> fcard (fmdom (store kvs)) < 100 \<Longrightarrow>
         Get (fst (handleUDPCommand lib now command addr kvs ac)) (parts ! 1) =
           (Join (drop 2 parts) '' '', True) \<and>
         snd (handleUDPCommand lib now command addr kvs ac) =
           Some \<lparr>Status = 200, Message = ''Key set successfully'', Key = parts ! 1,
                 Value = Join (drop 2 parts) '' '', Data = None, TimeStamp = now\<rparr>"
proof -
  define k where "k = parts ! 1"
  define w where "w = Join (drop 2 parts) '' ''"
  note h = handleUDPCommand_SET [OF assms k_def w_def, of now kvs]
  show "fst (handleUDPCommand lib now command addr kvs ac) =
           snd (Set kvs (parts ! 1) (Join (drop 2 parts) '' ''))"
    unfolding h k_def [symmetric] w_def [symmetric] by (simp split: prod.splits option.splits)
  assume "length (parts ! 1) \<le> 255" "length (Join (drop 2 parts) '' '') \<le> 1048576"
     "parts ! 1 |\<in>| fmdom (store kvs) \<or> fcard (fmdom (store kvs)) < 100"
  then have "Set kvs k w = (None, kvs\<lparr>store := fmupd k w (store kvs)\<rparr>)"
    unfolding k_def w_def by (rule Set_ok)
  then have "Get (fst (handleUDPCommand lib now command addr kvs ac)) k = (w, True) \<and>
         snd (handleUDPCommand lib now command addr kvs ac) =
           Some \<lparr>Status = 200, Message = ''Key set successfully'', Key = k,
                 Value = w, Data = None, TimeStamp = now\<rparr>"
    unfolding h by (simp add: Get_present)
  then show "Get (fst (handleUDPCommand lib now command addr kvs ac)) (parts ! 1) =
           (Join (drop 2 parts) '' '', True) \<and>
         snd (handleUDPCommand lib now command addr kvs ac) =
           Some \<lparr>Status = 200, Message = ''Key set successfully'', Key = parts ! 1,
                 Value = Join (drop 2 parts) '' '', Data = None, TimeStamp = now\<rparr>"
    unfolding k_def w_def .
qed

text \<open>Example datagrams: a long one that the 8192-byte buffer cuts, and short ones.\<close>

lemma fields_from_spaces:
  "fields_from cur (replicate (Suc n) CHR '' '' @ rest) =
   (if cur = [] then fields_from [] rest else cur # fields_from [] rest)"
proof (induction n arbitrary: cur)
  case 0
  show ?case by (simp add: isSpace_def)
next
  case (Suc n)
  have "fields_from cur (replicate (Suc (Suc n)) CHR '' '' @ rest) =
        (if cur = [] then fields_from [] (replicate (Suc n) CHR '' '' @ rest)
         else cur # fields_from [] (replicate (Suc n) CHR '' '' @ rest))"
    by (simp add: isSpace_def)
  then show ?case using Suc [of "[]"] by simp
qed

lemma Fields_long:
  "Fields ascii_lib (''SET k v'' @ replicate 8185 CHR '' '' @ ''w'') = [''SET'', ''k'', ''v'', ''w'']"
proof -
  have r: "replicate 8185 CHR '' '' = replicate (Suc 8184) CHR '' ''" by simp
  have "fields_from ''v'' (replicate 8185 CHR '' '' @ ''w'') = [''v'', ''w'']"
    unfolding r fields_from_spaces by (simp add: isSpace_def)
  then show ?thesis by (simp add: ascii_lib_def ascii_Fields_def isSpace_def)
qed

lemma take_long:
  "take 8192 (''SET k v'' @ replicate 8185 CHR '' '' @ ''w'') = ''SET k v'' @ replicate 8185 CHR '' ''"
  by simp

lemma dropWhile_spaces: "dropWhile isSpace (replicate n CHR '' '' @ xs) = dropWhile isSpace xs"
  by (induction n) (simp_all add: isSpace_def)

lemma TrimSpace_long:
  "TrimSpace ascii_lib (''SET k v'' @ replicate 8185 CHR '' '') = ''SET k v''"
proof -
  have "rev (''SET k v'' @ replicate 8185 CHR '' '') = replicate 8185 CHR '' '' @ rev ''SET k v''"
    by simp
  then show ?thesis
    by (simp add: ascii_lib_def ascii_TrimSpace_def dropWhile_spaces) (simp add: isSpace_def)
qed

lemma Fields_SET_k_v: "Fields ascii_lib ''SET k v'' = [''SET'', ''k'', ''v'']"
  by (simp add: ascii_lib_def ascii_Fields_def isSpace_def)

lemma Fields_SET_new: "Fields ascii_lib ''SET new a b'' = [''SET'', ''new'', ''a'', ''b'']"
  by (simp add: ascii_lib_def ascii_Fields_def isSpace_def)

lemma TrimSpace_SET_new: "TrimSpace ascii_lib ''SET new a b'' = ''SET new a b''"
  by (simp add: ascii_lib_def ascii_TrimSpace_def isSpace_def)

lemma Fields_SET_k_x_y: "Fields ascii_lib ''SET k x y'' = [''SET'', ''k'', ''x'', ''y'']"
  by (simp add: ascii_lib_def ascii_Fields_def isSpace_def)

lemma TrimSpace_SET_k_x_y: "TrimSpace ascii_lib ''SET k x y'' = ''SET k x y''"
  by (simp add: ascii_lib_def ascii_TrimSpace_def isSpace_def)

lemma TrimSpace_SET_a: "TrimSpace ascii_lib ''SET a hello'' = ''SET a hello''"
  by (simp add: ascii_lib_def ascii_TrimSpace_def isSpace_def)

lemma full_SET_new:
  "startUDPServer_step ascii_lib now ''SET new a b'' addr full_store open_ac =
   (full_store,
    [WriteToUDP (Some \<lparr>Status = 400, Message = Error CapacityExceeded, Key = ''new'',
                        Value = '''', Data = None, TimeStamp = now\<rparr>) addr])"
  using Set_capacity [of "''new''" "''a b''" full_store] new_notin_full full_card
  by (simp add: startUDPServer_step_eq TrimSpace_SET_new
        handleUDPCommand_SET [OF open_admits_udp Fields_SET_new _ _ refl refl] ToUpper_SET)

lemma long_SET_k:
  "fst (startUDPServer_step ascii_lib now (''SET k v'' @ replicate 8185 CHR '' '' @ ''w'') addr
          NewKeyValueStore open_ac) =
   \<lparr>store = fmupd ''k'' ''v'' fmempty\<rparr>"
proof -
  have c: "TrimSpace ascii_lib (take 8192 (''SET k v'' @ replicate 8185 CHR '' '' @ ''w'')) =
           ''SET k v''"
    by (simp only: take_long TrimSpace_long)
  show ?thesis
    unfolding startUDPServer_step_eq c
    by (simp add: handleUDPCommand_SET [OF open_admits_udp Fields_SET_k_v _ _ refl refl]
          ToUpper_SET Set_ok NewKeyValueStore_def fcard_fempty)
qed

lemma denied_SET:
  "startUDPServer_step ascii_lib now ''SET a hello'' ''10.0.0.1:5000'' NewKeyValueStore
     (local_only False False) =
   (NewKeyValueStore,
    [WriteToUDP (Some \<lparr>Status = 403,
                        Message = ''Access denied: Your IP is not in the allowed range'',
                        Key = '''', Value = '''', Data = None, TimeStamp = now\<rparr>)
       ''10.0.0.1:5000''])"
  using handleUDPCommand_outside [of "local_only False False" "[''127.0.0.1'']" ascii_lib
          "''10.0.0.1:5000''"]
        outside_udp not_local
  by (simp add: startUDPServer_step_eq local_only_def accessControlFromFlags_def)

subsection \<open>STATUS on both transports\<close>

lemma GetStatus_a_hello:
  "GetStatus \<lparr>store = fmupd ''a'' ''hello'' fmempty\<rparr> = \<lparr>KeyCount = 1, MemoryUsage = 6\<rparr>"
  by (simp add: GetStatus_def fcard_finsert_if fcard_fempty)

lemma total_a_hello: "spec_totalBytes \<lparr>store = fmupd ''a'' ''hello'' fmempty\<rparr> = 6"
  by (simp add: spec_totalBytes_def)

lemma udp_SET_a_hello:
  "handleUDPCommand ascii_lib now ''SET a hello'' addr NewKeyValueStore open_ac =
   (\<lparr>store = fmupd ''a'' ''hello'' fmempty\<rparr>,
    Some \<lparr>Status = 200, Message = ''Key set successfully'', Key = ''a'', Value = ''hello'',
          Data = None, TimeStamp = now\<rparr>)"
  by (simp add: udpDispatch_SET [OF Fields_SET_a _ _ refl refl]
        handleUDPCommand_admits [OF open_admits_udp]
        ToUpper_SET Set_ok NewKeyValueStore_def fcard_fempty)

lemma udp_STATUS:
  "handleUDPCommand ascii_lib now ''STATUS'' addr kvs open_ac =
   (kvs, Some \<lparr>Status = 200, Message = ''Status retrieved successfully'', Key = ''status'',
               Value = '''', Data = Some (GetStatus kvs), TimeStamp = now\<rparr>)"
  by (simp add: handleUDPCommand_admits [OF open_admits_udp] udpDispatch_def Fields_STATUS
        ToUpper_STATUS)

lemma http_STATUS:
  "handler lib open_ac now hj kvs (http_req ''GET'' ''/api/status'' []) =
   (kvs, Sent \<lparr>Status = 200, Message = ''Status retrieved successfully'', Key = ''status'',
               Value = '''', Data = Some (GetStatus kvs), TimeStamp = now\<rparr>)"
  by (simp add: handler_def accessMiddleware_admits [OF open_admits_http] statusHandler_def
        http_req_def sendJSONResponse_def)

subsection \<open>What an HTTP request can do to the store\<close>

lemma inner_store:
  "fst (pingHandler now kvs r) = kvs"
  "fst (statusHandler now kvs r) = kvs"
  "fst (getHandler now kvs r) = kvs"
  "fst (notFoundHandler now kvs r) = kvs"
  by (simp_all add: pingHandler_def statusHandler_def getHandler_def notFoundHandler_def Let_def
        split: prod.splits)

lemma setHandler_store:
  "fst (setHandler now kvs r) = kvs \<or>
   (\<exists>k v. v \<noteq> [] \<and> store (fst (setHandler now kvs r)) = fmupd k v (store kvs))"
  by (auto simp: setHandler_def Let_def Set_def split: prod.splits option.splits if_splits)

lemma middleware_store:
  "fst (accessMiddleware lib ac now hj next kvs r) = kvs \<or>
   fst (accessMiddleware lib ac now hj next kvs r) = fst (next kvs r)"
  by (auto simp: accessMiddleware_def split: option.splits sum.splits)

lemma handler_store:
  "fst (handler lib ac now hj kvs r) = kvs \<or>
   (\<exists>k v. v \<noteq> [] \<and> store (fst (handler lib ac now hj kvs r)) = fmupd k v (store kvs))"
proof (cases "Path r = ''/api/set''")
  case True
  then have h: "handler lib ac now hj kvs r = accessMiddleware lib ac now hj (setHandler now) kvs r"
    by (simp add: handler_def)
  show ?thesis
    unfolding h
    using middleware_store [of lib ac now hj "setHandler now" kvs r] setHandler_store [of now kvs r]
    by metis
next
  case False
  then have "fst (handler lib ac now hj kvs r) = kvs"
    using middleware_store [of lib ac now hj "pingHandler now" kvs r]
          middleware_store [of lib ac now hj "statusHandler now" kvs r]
          middleware_store [of lib ac now hj "getHandler now" kvs r]
    by (auto simp: handler_def inner_store)
  then show ?thesis ..
qed

lemma handler_no_new_empty:
  assumes "fmlookup (store (fst (handler lib ac now hj kvs r))) k = Some ''''"
  shows "fmlookup (store kvs) k = Some ''''"
  using handler_store [of lib ac now hj kvs r] assms by (auto split: if_splits)

section \<open>Claims about access control\<close>

subsection \<open>C4: the outcome for a source outside the range\<close>

text \<open>
  C4 asks, for a source outside the configured range: 403 "Access denied" in mode ACCEPT, 403
  "Connection rejected by firewall" in mode REJECT, and in mode DROP no response at all, on
  both transports.  Lemmas \<open>accessMiddleware_outside\<close> and \<open>handleUDPCommand_outside\<close> give
  the two 403 responses, and \<open>accessMiddleware_admits\<close> and \<open>handleUDPCommand_admits\<close> the
  passage to the command handler.  In mode DROP the HTTP middleware hijacks and closes the
  connection, and \<open>handleUDPCommand\<close> returns nil "(no response)"; but the receive loop of
  \<open>startUDPServer\<close> passes that nil to \<open>conn.WriteToUDP\<close> like any response, so a datagram of
  length zero is sent back to the outside source.  The code at this input: the datagram
  \<open>PING\<close> from 10.0.0.1:5000, range 127.0.0.1 only, \<open>--fw-drop\<close>.
\<close>

theorem udp_DROP_still_writes:
  "startUDPServer_step ascii_lib ''2023-06-15T14:30:15Z'' ''PING'' ''10.0.0.1:5000'' NewKeyValueStore
     (local_only True False) =
   (NewKeyValueStore, [WriteToUDP None ''10.0.0.1:5000'']) \<and>
   handler ascii_lib (local_only True False) ''2023-06-15T14:30:15Z'' True NewKeyValueStore
     (http_req ''GET'' ''/api/ping'' []) =
   (NewKeyValueStore, Hijacked)"
  using handleUDPCommand_outside [of "local_only True False" "[''127.0.0.1'']" ascii_lib
          "''10.0.0.1:5000''"]
        outside_udp not_local ping_dropped_http
  by (simp add: startUDPServer_step_def local_only_def accessControlFromFlags_def)

subsection \<open>C5: the access check as a pre-filter\<close>

text \<open>
  C5 asks that no request from outside the range gets anything but the deny outcome of the
  mode, HTTP requests to undefined paths included.  The catch-all \<open>handler\<close> wraps only the
  four registered routes in \<open>accessMiddleware\<close>; a path that matches none goes to
  \<open>notFoundHandler\<close> unchecked (lemma \<open>handler_unrouted\<close>, for every policy).  The code at
  this input: \<open>GET /nope\<close> from 10.0.0.1:5000, range 127.0.0.1 only, \<open>--fw-drop\<close>; the same
  source is dropped on \<open>/api/ping\<close> and answered with a 404 body on \<open>/nope\<close>.
\<close>

theorem unrouted_path_bypasses_access_check:
  "handler ascii_lib (local_only True False) ''2023-06-15T14:30:15Z'' True NewKeyValueStore
     (http_req ''GET'' ''/nope'' []) =
   (NewKeyValueStore,
    Sent \<lparr>Status = 404, Message = route_not_found ''/nope'', Key = '''', Value = '''',
          Data = None, TimeStamp = ''2023-06-15T14:30:15Z''\<rparr>) \<and>
   handler ascii_lib (local_only True False) ''2023-06-15T14:30:15Z'' True NewKeyValueStore
     (http_req ''GET'' ''/api/ping'' []) =
   (NewKeyValueStore, Hijacked)"
  using handler_unrouted [of "http_req ''GET'' ''/nope'' []" ascii_lib "local_only True False"
          "''2023-06-15T14:30:15Z''" True NewKeyValueStore]
        ping_dropped_http
  by (simp add: http_req_def)

section \<open>Claims about the responses\<close>

subsection \<open>C6: GET of an absent key\<close>

text \<open>
  C6 asks that a GET of an absent key answers, on both transports, with status 404, the
  message \<open>Key '<k>' not found\<close> and the key echoed in the key field.  The UDP branch does so
  (lemma \<open>udp_GET_b\<close>).  The HTTP handler passes the key to \<open>sendJSONResponse\<close>, which keeps
  key and value only when the status is 200, so the key field is empty in the HTTP 404.  The
  code at this input: \<open>GET /api/get?k=b\<close> on the empty store.
\<close>

theorem http_GET_miss_omits_key:
  "handler ascii_lib open_ac ''2023-06-15T14:30:15Z'' True NewKeyValueStore
     (http_req ''GET'' ''/api/get'' [(''k'', ''b'')]) =
   (NewKeyValueStore,
    Sent \<lparr>Status = 404, Message = key_not_found ''b'', Key = '''', Value = '''', Data = None,
          TimeStamp = ''2023-06-15T14:30:15Z''\<rparr>)"
  by (simp add: handler_def accessMiddleware_admits [OF open_admits_http] getHandler_def
        http_req_def Query_Get_def Get_def NewKeyValueStore_def sendJSONResponse_def Let_def)

subsection \<open>C7: when key and value are populated\<close>

text \<open>
  C7, as stated, fails: it says that a 404 key-not-found response carries no key, but the UDP
  answer to \<open>GET b\<close> on the empty store has status 404 and the key field \<open>b\<close>.
\<close>

theorem udp_GET_miss_carries_key:
  "snd (handleUDPCommand ascii_lib ''2023-06-15T14:30:15Z'' ''GET b'' ''10.0.0.1:5000''
          NewKeyValueStore open_ac) =
   Some \<lparr>Status = 404, Message = key_not_found ''b'', Key = ''b'', Value = '''', Data = None,
         TimeStamp = ''2023-06-15T14:30:15Z''\<rparr>"
  by (simp add: udp_GET_b)

text \<open>
  C7, amended: on both transports the value field is populated only on the status-200
  responses of PING, GET and SET, and the key field only on the status-200 responses of PING,
  STATUS, GET and SET, on the 404 response for a key that was not found, and on the 400
  response that reports an error of \<open>Store.Set\<close>; every other response carries neither key
  nor value.
\<close>

theorem optional_fields_rule:
  "(snd (handler lib ac now hj kvs r) = Sent resp \<longrightarrow> fields_justified resp) \<and>
   (snd (handleUDPCommand lib now command addr kvs ac) = Some resp' \<longrightarrow> fields_justified resp')"
  using http_rule [of lib ac now hj kvs r resp] udp_rule [of lib now command addr kvs ac resp']
  by blast

theorem optional_fields_rule_witness:
  "snd (handler ascii_lib open_ac ''t'' True NewKeyValueStore (http_req ''GET'' ''/api/ping'' [])) =
     Sent \<lparr>Status = 200, Message = ''PONG'', Key = ''ping'', Value = ''PONG'', Data = None,
           TimeStamp = ''t''\<rparr> \<and>
   value_bearing \<lparr>Status = 200, Message = ''PONG'', Key = ''ping'', Value = ''PONG'', Data = None,
                  TimeStamp = ''t''\<rparr> \<and>
   snd (handleUDPCommand ascii_lib ''t'' ''GET b'' ''10.0.0.1:5000'' NewKeyValueStore open_ac) =
     Some \<lparr>Status = 404, Message = key_not_found ''b'', Key = ''b'', Value = '''', Data = None,
           TimeStamp = ''t''\<rparr> \<and>
   key_bearing \<lparr>Status = 404, Message = key_not_found ''b'', Key = ''b'', Value = '''', Data = None,
                TimeStamp = ''t''\<rparr>"
  using optional_fields_rule [of ascii_lib open_ac "''t''" True NewKeyValueStore
          "http_req ''GET'' ''/api/ping'' []"
          "\<lparr>Status = 200, Message = ''PONG'', Key = ''ping'', Value = ''PONG'', Data = None,
            TimeStamp = ''t''\<rparr>"
          "''GET b''" "''10.0.0.1:5000''"
          "\<lparr>Status = 404, Message = key_not_found ''b'', Key = ''b'', Value = '''', Data = None,
            TimeStamp = ''t''\<rparr>"]
  by (simp add: http_ping udp_GET_b fields_justified_def)

section \<open>Claims about the commands\<close>

subsection \<open>C8: the value of a UDP SET\<close>

text \<open>
  C8, as stated, fails: a SET datagram with at least three tokens does not always store the
  joined tokens.  (1) At the store filled by \<open>fill_ops 100\<close>, the datagram \<open>SET new a b\<close>
  from an admitted source is answered with the 400 capacity error and nothing is stored under
  \<open>new\<close>.  (2) The receive buffer keeps 8192 bytes: of the datagram \<open>SET k v\<close>, 8185
  spaces, \<open>w\<close>, whose tokens are \<open>SET\<close>, \<open>k\<close>, \<open>v\<close>, \<open>w\<close>, the value stored is \<open>v\<close>,
  not \<open>v w\<close>.  (3) From a source outside the range, \<open>SET a hello\<close> stores nothing.
\<close>

theorem udp_SET_not_always_stored:
  "udp_admits ascii_lib open_ac ''10.0.0.1:5000'' \<and>
   Fields ascii_lib ''SET new a b'' = [''SET'', ''new'', ''a'', ''b''] \<and>
   startUDPServer_step ascii_lib ''2023-06-15T14:30:15Z'' ''SET new a b'' ''10.0.0.1:5000''
     (run_ops (fill_ops 100)) open_ac =
   (run_ops (fill_ops 100),
    [WriteToUDP (Some \<lparr>Status = 400, Message = Error CapacityExceeded, Key = ''new'',
                        Value = '''', Data = None, TimeStamp = ''2023-06-15T14:30:15Z''\<rparr>)
       ''10.0.0.1:5000'']) \<and>
   Get (run_ops (fill_ops 100)) ''new'' = ('''', False) \<and>
   Fields ascii_lib (''SET k v'' @ replicate 8185 CHR '' '' @ ''w'') =
     [''SET'', ''k'', ''v'', ''w''] \<and>
   Get (fst (startUDPServer_step ascii_lib ''2023-06-15T14:30:15Z''
               (''SET k v'' @ replicate 8185 CHR '' '' @ ''w'') ''10.0.0.1:5000''
               NewKeyValueStore open_ac)) ''k'' = (''v'', True) \<and>
   Fields ascii_lib ''SET a hello'' = [''SET'', ''a'', ''hello''] \<and>
   Get (fst (startUDPServer_step ascii_lib ''2023-06-15T14:30:15Z'' ''SET a hello''
               ''10.0.0.1:5000'' NewKeyValueStore (local_only False False))) ''a'' =
     ('''', False)"
proof -
  have 1: "startUDPServer_step ascii_lib ''2023-06-15T14:30:15Z'' ''SET new a b'' ''10.0.0.1:5000''
     (run_ops (fill_ops 100)) open_ac =
   (run_ops (fill_ops 100),
    [WriteToUDP (Some \<lparr>Status = 400, Message = Error CapacityExceeded, Key = ''new'',
                        Value = '''', Data = None, TimeStamp = ''2023-06-15T14:30:15Z''\<rparr>)
       ''10.0.0.1:5000''])"
    using full_SET_new unfolding full_store_def .
  have 2: "Get (run_ops (fill_ops 100)) ''new'' = ('''', False)"
    using Get_absent [OF new_notin_full] unfolding full_store_def .
  have 3: "Get (fst (startUDPServer_step ascii_lib ''2023-06-15T14:30:15Z''
               (''SET k v'' @ replicate 8185 CHR '' '' @ ''w'') ''10.0.0.1:5000''
               NewKeyValueStore open_ac)) ''k'' = (''v'', True)"
    unfolding long_SET_k by (simp add: Get_present)
  have 4: "Get (fst (startUDPServer_step ascii_lib ''2023-06-15T14:30:15Z'' ''SET a hello''
               ''10.0.0.1:5000'' NewKeyValueStore (local_only False False))) ''a'' =
     ('''', False)"
    unfolding denied_SET by (simp add: Get_def NewKeyValueStore_def)
  from 1 2 3 4 open_admits_udp Fields_SET_new Fields_long Fields_SET_a show ?thesis by blast
qed

text \<open>
  C8, amended: for a datagram from a source the access check lets through, let \<open>parts\<close> be
  the fields of its first 8192 bytes, trimmed; if there are at least three and the first is
  \<open>SET\<close> in upper case, the store after the datagram is the store after
  \<open>Set(parts[1], Join(parts[2:], " "))\<close>: the second token is the key and the value is the
  tokens after it joined with one space between neighbours.  When \<open>Set\<close> accepts them (key of
  at most 255 bytes, value of at most 1048576 bytes, key present or fewer than 100 keys
  stored), \<open>Get\<close> of the key returns the joined value and the 200 response written back
  reports both.  The same holds of \<open>handleUDPCommand\<close> for the command text it is given.  The
  datagram \<open>SET greeting Hello, World!\<close> stores \<open>Hello, World!\<close> under \<open>greeting\<close>.
\<close>

theorem udp_SET_stores_joined_tokens:
  "(udp_admits lib ac addr \<and> Fields lib (TrimSpace lib (take 8192 datagram)) = parts \<and>
    3 \<le> length parts \<and> ToUpper lib (parts ! 0) = ''SET'' \<longrightarrow>
      fst (startUDPServer_step lib now datagram addr kvs ac) =
        snd (Set kvs (parts ! 1) (Join (drop 2 parts) '' '')) \<and>
      (length (parts ! 1) \<le> 255 \<and> length (Join (drop 2 parts) '' '') \<le> 1048576 \<and>
       (parts ! 1 |\<in>| fmdom (store kvs) \<or> fcard (fmdom (store kvs)) < 100) \<longrightarrow>
         Get (fst (startUDPServer_step lib now datagram addr kvs ac)) (parts ! 1) =
           (Join (drop 2 parts) '' '', True) \<and>
         snd (startUDPServer_step lib now datagram addr kvs ac) =
           [WriteToUDP
              (Some \<lparr>Status = 200, Message = ''Key set successfully'', Key = parts ! 1,
                     Value = Join (drop 2 parts) '' '', Data = None, TimeStamp = now\<rparr>)
              addr])) \<and>
   (udp_admits lib ac addr \<and> Fields lib command = cparts \<and> 3 \<le> length cparts \<and>
    ToUpper lib (cparts ! 0) = ''SET'' \<longrightarrow>
      fst (handleUDPCommand lib now command addr kvs ac) =
        snd (Set kvs (cparts ! 1) (Join (drop 2 cparts) '' '')) \<and>
      (length (cparts ! 1) \<le> 255 \<and> length (Join (drop 2 cparts) '' '') \<le> 1048576 \<and>
       (cparts ! 1 |\<in>| fmdom (store kvs) \<or> fcard (fmdom (store kvs)) < 100) \<longrightarrow>
         Get (fst (handleUDPCommand lib now command addr kvs ac)) (cparts ! 1) =
           (Join (drop 2 cparts) '' '', True) \<and>
         snd (handleUDPCommand lib now command addr kvs ac) =
           Some \<lparr>Status = 200, Message = ''Key set successfully'', Key = cparts ! 1,
                 Value = Join (drop 2 cparts) '' '', Data = None, TimeStamp = now\<rparr>)) \<and>
   Join (x # y # ys) '' '' = x @ '' '' @ Join (y # ys) '' '' \<and>
   Get (fst (startUDPServer_step ascii_lib now ''SET greeting Hello, World!'' addr NewKeyValueStore
               open_ac)) ''greeting'' = (''Hello, World!'', True)"
proof -
  have cmd: "fst (handleUDPCommand lib now c addr kvs ac) =
        snd (Set kvs (ps ! 1) (Join (drop 2 ps) '' '')) \<and>
      (length (ps ! 1) \<le> 255 \<and> length (Join (drop 2 ps) '' '') \<le> 1048576 \<and>
       (ps ! 1 |\<in>| fmdom (store kvs) \<or> fcard (fmdom (store kvs)) < 100) \<longrightarrow>
         Get (fst (handleUDPCommand lib now c addr kvs ac)) (ps ! 1) =
           (Join (drop 2 ps) '' '', True) \<and>
         snd (handleUDPCommand lib now c addr kvs ac) =
           Some \<lparr>Status = 200, Message = ''Key set successfully'', Key = ps ! 1,
                 Value = Join (drop 2 ps) '' '', Data = None, TimeStamp = now\<rparr>)"
    if "udp_admits lib ac addr" "Fields lib c = ps" "3 \<le> length ps"
       "ToUpper lib (ps ! 0) = ''SET''" for c ps
    using handleUDPCommand_SET_result [OF that, where now = now and kvs = kvs] by blast
  have dg: "fst (startUDPServer_step lib now datagram addr kvs ac) =
        snd (Set kvs (parts ! 1) (Join (drop 2 parts) '' '')) \<and>
      (length (parts ! 1) \<le> 255 \<and> length (Join (drop 2 parts) '' '') \<le> 1048576 \<and>
       (parts ! 1 |\<in>| fmdom (store kvs) \<or> fcard (fmdom (store kvs)) < 100) \<longrightarrow>
         Get (fst (startUDPServer_step lib now datagram addr kvs ac)) (parts ! 1) =
           (Join (drop 2 parts) '' '', True) \<and>
         snd (startUDPServer_step lib now datagram addr kvs ac) =
           [WriteToUDP
              (Some \<lparr>Status = 200, Message = ''Key set successfully'', Key = parts ! 1,
                     Value = Join (drop 2 parts) '' '', Data = None, TimeStamp = now\<rparr>)
              addr])"
    if "udp_admits lib ac addr" "Fields lib (TrimSpace lib (take 8192 datagram)) = parts"
       "3 \<le> length parts" "ToUpper lib (parts ! 0) = ''SET''"
  proof -
    let ?h = "handleUDPCommand lib now (TrimSpace lib (take 8192 datagram)) addr kvs ac"
    from cmd [OF that] have A: "fst ?h = snd (Set kvs (parts ! 1) (Join (drop 2 parts) '' ''))"
      by blast
    from cmd [OF that] have B: "Get (fst ?h) (parts ! 1) = (Join (drop 2 parts) '' '', True)"
      "snd ?h = Some \<lparr>Status = 200, Message = ''Key set successfully'', Key = parts ! 1,
                 Value = Join (drop 2 parts) '' '', Data = None, TimeStamp = now\<rparr>"
      if "length (parts ! 1) \<le> 255" "length (Join (drop 2 parts) '' '') \<le> 1048576"
         "parts ! 1 |\<in>| fmdom (store kvs) \<or> fcard (fmdom (store kvs)) < 100"
      using that by blast+
    show ?thesis
      unfolding startUDPServer_step_eq fst_conv snd_conv using A B by (simp del: One_nat_def)
  qed
  have ex: "Get (fst (startUDPServer_step ascii_lib now ''SET greeting Hello, World!'' addr
                        NewKeyValueStore open_ac)) ''greeting'' = (''Hello, World!'', True)"
    by (simp add: udp_SET_greeting Get_present)
  from cmd [of command cparts] dg ex Join.simps(3) show ?thesis by blast
qed

theorem udp_SET_stores_joined_tokens_witness:
  "''k'' |\<in>| fmdom (store (run_ops (fill_ops 100))) \<and>
   Get (fst (startUDPServer_step ascii_lib ''t'' ''SET k x y'' ''10.0.0.1:5000''
               (run_ops (fill_ops 100)) open_ac)) ''k'' = (''x y'', True) \<and>
   snd (startUDPServer_step ascii_lib ''t'' ''SET k x y'' ''10.0.0.1:5000''
          (run_ops (fill_ops 100)) open_ac) =
     [WriteToUDP
        (Some \<lparr>Status = 200, Message = ''Key set successfully'', Key = ''k'', Value = ''x y'',
               Data = None, TimeStamp = ''t''\<rparr>)
        ''10.0.0.1:5000'']"
proof -
  let ?ps = "[''SET'', ''k'', ''x'', ''y'']"
  have k: "''k'' |\<in>| fmdom (store (run_ops (fill_ops 100)))"
    using key_k_in_full by (simp add: full_store_def)
  have hyp: "udp_admits ascii_lib open_ac ''10.0.0.1:5000'' \<and>
             Fields ascii_lib (TrimSpace ascii_lib (take 8192 ''SET k x y'')) = ?ps \<and>
             3 \<le> length ?ps \<and> ToUpper ascii_lib (?ps ! 0) = ''SET''"
    by (simp add: open_admits_udp TrimSpace_SET_k_x_y Fields_SET_k_x_y ToUpper_SET)
  have acc: "length (?ps ! 1) \<le> 255 \<and> length (Join (drop 2 ?ps) '' '') \<le> 1048576 \<and>
             (?ps ! 1 |\<in>| fmdom (store (run_ops (fill_ops 100))) \<or>
              fcard (fmdom (store (run_ops (fill_ops 100)))) < 100)"
    using k by simp
  from hyp acc
    udp_SET_stores_joined_tokens [where lib = ascii_lib and ac = open_ac
      and addr = "''10.0.0.1:5000''" and datagram = "''SET k x y''" and parts = ?ps
      and now = "''t''" and kvs = "run_ops (fill_ops 100)"]
  have "Get (fst (startUDPServer_step ascii_lib ''t'' ''SET k x y'' ''10.0.0.1:5000''
               (run_ops (fill_ops 100)) open_ac)) (?ps ! 1) = (Join (drop 2 ?ps) '' '', True) \<and>
        snd (startUDPServer_step ascii_lib ''t'' ''SET k x y'' ''10.0.0.1:5000''
               (run_ops (fill_ops 100)) open_ac) =
          [WriteToUDP
             (Some \<lparr>Status = 200, Message = ''Key set successfully'', Key = ?ps ! 1,
                    Value = Join (drop 2 ?ps) '' '', Data = None, TimeStamp = ''t''\<rparr>)
             ''10.0.0.1:5000'']"
    by blast
  then show ?thesis using k by simp
qed

subsection \<open>C9: what STATUS reports\<close>

text \<open>
  C9: in every state the store can reach, \<open>GetStatus\<close> returns as key count the number of
  distinct keys and as memory usage (the \<open>int64\<close> read as a signed number) the sum over the
  entries of \<open>len(key) + len(value)\<close>, both computed from the one state it is called in; the
  same holds in any state whose byte total fits an \<open>int64\<close>.  After \<open>SET a hello\<close> on the
  empty store, \<open>STATUS\<close> reports key count 1 and 6 bytes.
\<close>

theorem STATUS_reports_count_and_bytes:
  "KeyCount (GetStatus (run_ops ops)) = int (fcard (fmdom (store (run_ops ops)))) \<and>
   sint (MemoryUsage (GetStatus (run_ops ops))) = spec_totalBytes (run_ops ops) \<and>
   (spec_totalBytes kvs < 2 ^ 63 \<longrightarrow>
      KeyCount (GetStatus kvs) = int (fcard (fmdom (store kvs))) \<and>
      sint (MemoryUsage (GetStatus kvs)) = spec_totalBytes kvs) \<and>
   snd (handleUDPCommand ascii_lib now ''STATUS'' addr
          (fst (handleUDPCommand ascii_lib now ''SET a hello'' addr NewKeyValueStore open_ac))
          open_ac) =
     Some \<lparr>Status = 200, Message = ''Status retrieved successfully'', Key = ''status'',
           Value = '''', Data = Some \<lparr>KeyCount = 1, MemoryUsage = 6\<rparr>, TimeStamp = now\<rparr>"
proof -
  have "spec_totalBytes (run_ops ops) \<le> 104883100"
    by (rule inv_total_bound [OF run_ops_inv])
  then have "spec_totalBytes (run_ops ops) < 2 ^ 63" by simp
  then have r: "sint (MemoryUsage (GetStatus (run_ops ops))) = spec_totalBytes (run_ops ops)"
    by (rule GetStatus_exact)
  have c: "KeyCount (GetStatus s) = int (fcard (fmdom (store s)))" for s
    by (simp add: GetStatus_def)
  have e: "snd (handleUDPCommand ascii_lib now ''STATUS'' addr
          (fst (handleUDPCommand ascii_lib now ''SET a hello'' addr NewKeyValueStore open_ac))
          open_ac) =
     Some \<lparr>Status = 200, Message = ''Status retrieved successfully'', Key = ''status'',
           Value = '''', Data = Some \<lparr>KeyCount = 1, MemoryUsage = 6\<rparr>, TimeStamp = now\<rparr>"
    by (simp add: udp_SET_a_hello udp_STATUS GetStatus_a_hello)
  from r c e GetStatus_exact [of kvs] show ?thesis by blast
qed

theorem STATUS_reports_count_and_bytes_witness:
  "spec_totalBytes \<lparr>store = fmupd ''a'' ''hello'' fmempty\<rparr> < 2 ^ 63 \<and>
   KeyCount (GetStatus \<lparr>store = fmupd ''a'' ''hello'' fmempty\<rparr>) = 1 \<and>
   sint (MemoryUsage (GetStatus \<lparr>store = fmupd ''a'' ''hello'' fmempty\<rparr>)) = 6"
  using STATUS_reports_count_and_bytes [of "[]" "\<lparr>store = fmupd ''a'' ''hello'' fmempty\<rparr>"]
    total_a_hello
  by (simp add: fcard_finsert_if fcard_fempty)

subsection \<open>C10: the empty value over HTTP\<close>

text \<open>
  C10, as stated, fails: the handler of \<open>/api/set\<close> tests the key before the value, so a POST
  with an empty value and no key is answered with "Missing key parameter".
\<close>

theorem http_SET_empty_key_first:
  "handler ascii_lib open_ac ''2023-06-15T14:30:15Z'' True NewKeyValueStore
     (http_req ''POST'' ''/api/set'' [(''v'', '''')]) =
   (NewKeyValueStore,
    Sent \<lparr>Status = 400, Message = ''Missing key parameter'', Key = '''', Value = '''',
          Data = None, TimeStamp = ''2023-06-15T14:30:15Z''\<rparr>)"
  by (simp add: handler_def accessMiddleware_admits [OF open_admits_http] setHandler_def
        http_req_def Query_Get_def sendJSONResponse_def)

text \<open>
  C10, amended: a POST or PUT to \<open>/api/set\<close> that passes the access check, with a non-empty
  key parameter and a value parameter that is empty (or missing), is answered with status 400
  and "Missing value parameter" and leaves the store unchanged; no HTTP request makes a key
  hold the empty value that did not hold it before; and \<open>Store.Set\<close> itself accepts the empty
  value, whenever it accepts the key.
\<close>

theorem http_SET_rejects_empty_value:
  "(Path r = ''/api/set'' \<and> (Method r = ''POST'' \<or> Method r = ''PUT'') \<and>
    http_admits lib ac r \<and> Query_Get (Query r) ''k'' \<noteq> '''' \<and> Query_Get (Query r) ''v'' = '''' \<longrightarrow>
      handler lib ac now hj kvs r =
        (kvs, Sent \<lparr>Status = 400, Message = ''Missing value parameter'', Key = '''',
                     Value = '''', Data = None, TimeStamp = now\<rparr>)) \<and>
   (fmlookup (store (fst (handler lib ac now hj kvs r))) k = Some '''' \<longrightarrow>
      fmlookup (store kvs) k = Some '''') \<and>
   (length k \<le> 255 \<and> (k |\<in>| fmdom (store kvs) \<or> fcard (fmdom (store kvs)) < 100) \<longrightarrow>
      Set kvs k '''' = (None, kvs\<lparr>store := fmupd k '''' (store kvs)\<rparr>))"
proof -
  have 1: "handler lib ac now hj kvs r =
        (kvs, Sent \<lparr>Status = 400, Message = ''Missing value parameter'', Key = '''',
                     Value = '''', Data = None, TimeStamp = now\<rparr>)"
    if "Path r = ''/api/set''" "Method r = ''POST'' \<or> Method r = ''PUT''" "http_admits lib ac r"
       "Query_Get (Query r) ''k'' \<noteq> ''''" "Query_Get (Query r) ''v'' = ''''"
    using that
    by (auto simp: handler_def accessMiddleware_admits setHandler_def sendJSONResponse_def)
  have 3: "Set kvs k '''' = (None, kvs\<lparr>store := fmupd k '''' (store kvs)\<rparr>)"
    if "length k \<le> 255" "k |\<in>| fmdom (store kvs) \<or> fcard (fmdom (store kvs)) < 100"
    using that by (simp add: Set_ok)
  from 1 3 handler_no_new_empty [of lib ac now hj kvs r k] show ?thesis by blast
qed

theorem http_SET_rejects_empty_value_witness:
  "handler ascii_lib open_ac ''t'' True NewKeyValueStore
     (http_req ''POST'' ''/api/set'' [(''k'', ''a''), (''v'', '''')]) =
   (NewKeyValueStore,
    Sent \<lparr>Status = 400, Message = ''Missing value parameter'', Key = '''', Value = '''',
          Data = None, TimeStamp = ''t''\<rparr>) \<and>
   Set NewKeyValueStore ''a'' '''' = (None, \<lparr>store = fmupd ''a'' '''' fmempty\<rparr>)"
  using http_SET_rejects_empty_value [of "http_req ''POST'' ''/api/set'' [(''k'', ''a''), (''v'', '''')]"
      ascii_lib open_ac "''t''" True NewKeyValueStore "''a''"]
    open_admits_http [of ascii_lib]
  by (simp add: http_req_def Query_Get_def NewKeyValueStore_def fcard_fempty)

end
